theory Spec2Isabelle
  imports Main "HOL-Library.AList"
begin

section \<open>Python strings\<close>

text \<open>
  The string operations of the Python standard library that \<^verbatim>\<open>rhc/micro.py\<close> applies to
  the lines of a micro file. A string is a list of characters; a line read by
  \<^verbatim>\<open>readlines()\<close> keeps its newline.
\<close>

text \<open>The characters \<^verbatim>\<open>str.strip()\<close> and \<^verbatim>\<open>str.split()\<close> treat as whitespace:
  space, tab, line feed, vertical tab, form feed, carriage return.\<close>

definition is_space :: "char \<Rightarrow> bool" where
  "is_space c = (c \<in> set [CHR '' '', CHR 0x09, CHR 0x0A, CHR 0x0B, CHR 0x0C, CHR 0x0D])"

text \<open>\<^verbatim>\<open>s.strip()\<close>\<close>

definition py_strip :: "string \<Rightarrow> string" where
  "py_strip s = rev (dropWhile is_space (rev (dropWhile is_space s)))"

text \<open>\<^verbatim>\<open>s.lower()\<close> on a byte string: the letters A to Z are mapped, all else is kept.\<close>

definition lower_char :: "char \<Rightarrow> char" where
  "lower_char c =
     (case map_of (zip ''ABCDEFGHIJKLMNOPQRSTUVWXYZ'' ''abcdefghijklmnopqrstuvwxyz'') c of
        None \<Rightarrow> c
      | Some d \<Rightarrow> d)"

definition py_lower :: "string \<Rightarrow> string" where
  "py_lower s = map lower_char s"

text \<open>\<^verbatim>\<open>s.split(sep, 1)\<close> for a one-character separator: at most one cut, at the first
  occurrence of the separator.\<close>

definition py_split1 :: "char \<Rightarrow> string \<Rightarrow> string list" where
  "py_split1 sep s =
     (if sep \<in> set s
      then [takeWhile (\<lambda>c. c \<noteq> sep) s, tl (dropWhile (\<lambda>c. c \<noteq> sep) s)]
      else [s])"

text \<open>\<^verbatim>\<open>s.split()\<close>: the maximal runs of non-whitespace characters, in order.\<close>

fun py_split_ws_aux :: "string \<Rightarrow> string \<Rightarrow> string list" where
  "py_split_ws_aux cur [] = (if cur = [] then [] else [cur])"
| "py_split_ws_aux cur (c # cs) =
     (if is_space c
      then (if cur = [] then py_split_ws_aux [] cs else cur # py_split_ws_aux [] cs)
      else py_split_ws_aux (cur @ [c]) cs)"

definition py_split_ws :: "string \<Rightarrow> string list" where
  "py_split_ws s = py_split_ws_aux [] s"

text \<open>\<^verbatim>\<open>sep.join(xs)\<close>\<close>

fun py_join :: "string \<Rightarrow> string list \<Rightarrow> string" where
  "py_join sep [] = []"
| "py_join sep [x] = x"
| "py_join sep (x # y # ys) = x @ sep @ py_join sep (y # ys)"

text \<open>\<^verbatim>\<open>s.split(sep)\<close> for a one-character separator: a cut at every occurrence.\<close>

fun py_split_all :: "char \<Rightarrow> string \<Rightarrow> string list" where
  "py_split_all sep [] = [[]]"
| "py_split_all sep (c # cs) =
     (if c = sep then [] # py_split_all sep cs
      else (case py_split_all sep cs of
              [] \<Rightarrow> [[c]]
            | x # xs \<Rightarrow> (c # x) # xs))"

text \<open>\<^verbatim>\<open>os.path.dirname(p)\<close> of \<^verbatim>\<open>posixpath\<close>: the text up to the last slash, without the
  slashes that end it unless it is slashes only.\<close>

definition py_dirname :: "string \<Rightarrow> string" where
  "py_dirname p =
     (let head = (if CHR ''/'' \<in> set p then rev (dropWhile (\<lambda>c. c \<noteq> CHR ''/'') (rev p)) else [])
      in if head \<noteq> [] \<and> \<not> list_all (\<lambda>c. c = CHR ''/'') head
         then rev (dropWhile (\<lambda>c. c = CHR ''/'') (rev head))
         else head)"

text \<open>\<^verbatim>\<open>os.path.join(a, *p)\<close> of \<^verbatim>\<open>posixpath\<close>: an absolute component replaces what was
  joined so far; otherwise components are joined by one slash.\<close>

definition path_join1 :: "string \<Rightarrow> string \<Rightarrow> string" where
  "path_join1 path b =
     (if b \<noteq> [] \<and> hd b = CHR ''/'' then b
      else if path = [] \<or> last path = CHR ''/'' then path @ b
      else path @ CHR ''/'' # b)"

definition py_path_join :: "string \<Rightarrow> string list \<Rightarrow> string" where
  "py_path_join a ps = foldl path_join1 a ps"

section \<open>Errors\<close>

text \<open>
  Every exception the launcher can raise is a value. \<^verbatim>\<open>FSM.handle\<close> catches whatever a
  state handler raises and raises a new exception whose message is the old one followed
  by the line number and the file name: \<open>AtLine\<close>.
\<close>

datatype error =
    ValueError
  | TypeError
  | AttributeError string
  | ImportError string
  | IOError string
  | UnboundLocalError
  | RecursiveImport string
  | RuntimeError
  | UnrecognizedValidation
  | ValidationFailure
  | InvalidRecord string
  | UnexpectedEvent string
  | PortAlreadyDefined int string
  | AddServerFailed
  | ExternalFailure
  | AtLine error nat string

section \<open>The lexing step of parse\<close>

text \<open>
  The first lines of the loop body of \<^verbatim>\<open>parse\<close>:
  \<^verbatim>\<open>
    l = l.split('#', 1)[0].strip()
    if not l:
        continue
    try:
        n, v = l.split(' ', 1)
        n = n.lower()
    except ValueError as e:
        log.warning(...)
        raise
  \<close>
  \<open>Inr None\<close> is the \<^verbatim>\<open>continue\<close>, \<open>Inl ValueError\<close> the re-raised failure of the
  unpacking, \<open>Inr (Some (n, v))\<close> the event name and its data.
\<close>

definition lex_line :: "string \<Rightarrow> error + (string \<times> string) option" where
  "lex_line l =
     (let l' = py_strip (hd (py_split1 (CHR ''#'') l)) in
      if l' = [] then Inr None
      else (case py_split1 (CHR '' '') l' of
              [n, v] \<Rightarrow> Inr (Some (py_lower n, v))
            | _ \<Rightarrow> Inl ValueError))"

text \<open>\<^verbatim>\<open>s.rsplit(sep, 1)\<close> for a one-character separator: at most one cut, at the last
  occurrence of the separator.\<close>

definition py_rsplit1 :: "char \<Rightarrow> string \<Rightarrow> string list" where
  "py_rsplit1 sep s =
     (if sep \<in> set s
      then [rev (tl (dropWhile (\<lambda>c. c \<noteq> sep) (rev s))), rev (takeWhile (\<lambda>c. c \<noteq> sep) (rev s))]
      else [s])"

text \<open>\<^verbatim>\<open>int(s)\<close> on a string: surrounding whitespace is dropped, then an optional sign
  and one or more decimal digits are read; anything else raises ValueError.\<close>

definition digit_of :: "char \<Rightarrow> nat option" where
  "digit_of c = map_of (zip ''0123456789'' [0, 1, 2, 3, 4, 5, 6, 7, 8, 9]) c"

fun nat_of_digits :: "nat \<Rightarrow> string \<Rightarrow> nat option" where
  "nat_of_digits acc [] = Some acc"
| "nat_of_digits acc (c # cs) =
     (case digit_of c of None \<Rightarrow> None | Some d \<Rightarrow> nat_of_digits (10 * acc + d) cs)"

definition unsigned_of :: "string \<Rightarrow> nat option" where
  "unsigned_of s = (if s = [] then None else nat_of_digits 0 s)"

definition py_int_str :: "string \<Rightarrow> error + int" where
  "py_int_str s =
     (case py_strip s of
        [] \<Rightarrow> Inl ValueError
      | c # cs \<Rightarrow>
          if c = CHR ''-'' then (case unsigned_of cs of None \<Rightarrow> Inl ValueError | Some n \<Rightarrow> Inr (- int n))
          else if c = CHR ''+'' then (case unsigned_of cs of None \<Rightarrow> Inl ValueError | Some n \<Rightarrow> Inr (int n))
          else (case unsigned_of (c # cs) of None \<Rightarrow> Inl ValueError | Some n \<Rightarrow> Inr (int n)))"

section \<open>Values and the objects of the launcher\<close>

text \<open>
  The Python values that travel through the launcher. \<open>PSection p\<close> is the sub-object of
  the \<^verbatim>\<open>rhc.config.Config\<close> namespace reached by the dotted path \<open>p\<close>; \<open>PPortTuple n\<close> is the
  value \<^verbatim>\<open>namedtuple('config', 'port')(n)\<close> that a PORT directive builds.
\<close>

datatype pyval =
    PNone
  | PBool bool
  | PInt int
  | PStr string
  | PSection string
  | PPortTuple int

text \<open>The truth value Python gives a value in \<^verbatim>\<open>if v:\<close>.\<close>

fun py_truthy :: "pyval \<Rightarrow> bool" where
  "py_truthy PNone = False"
| "py_truthy (PBool b) = b"
| "py_truthy (PInt n) = (n \<noteq> 0)"
| "py_truthy (PStr s) = (s \<noteq> [])"
| "py_truthy (PSection p) = True"
| "py_truthy (PPortTuple n) = True"

text \<open>\<^verbatim>\<open>int(v)\<close>\<close>

fun py_int :: "pyval \<Rightarrow> error + int" where
  "py_int (PInt n) = Inr n"
| "py_int (PBool b) = Inr (if b then 1 else 0)"
| "py_int (PStr s) = py_int_str s"
| "py_int PNone = Inl TypeError"
| "py_int (PSection p) = Inl TypeError"
| "py_int (PPortTuple n) = Inl TypeError"

text \<open>
  What a \<^verbatim>\<open>validator=\<close> keyword argument can hold: one of the three validators of
  \<^verbatim>\<open>rhc.config\<close>, or (when a CONFIG line itself says \<^verbatim>\<open>validator=...\<close>) a string, which is
  not callable.
\<close>

datatype vfun = validate_int | validate_bool | validate_file | NotCallable string

text \<open>
  Modelled from the spec: the class \<^verbatim>\<open>rhc.config.Config\<close> is imported by
  \<^verbatim>\<open>rhc/micro.py\<close> and is not among the sources. A registered key is
  (dotted name, default value, validator, environment variable name); the namespace is
  the keys in the order they were registered, and \<^verbatim>\<open>_define\<close> registers one key.
\<close>

record config_key =
  ck_name :: string
  ck_value :: pyval
  ck_validator :: "vfun option"
  ck_env :: "string option"

type_synonym config = "config_key list"

definition cfg_define :: "config \<Rightarrow> string \<Rightarrow> pyval \<Rightarrow> vfun option \<Rightarrow> string option \<Rightarrow> config" where
  "cfg_define cfg name value validator env =
     cfg @ [\<lparr>ck_name = name, ck_value = value, ck_validator = validator, ck_env = env\<rparr>]"

text \<open>A function or a module found by \<^verbatim>\<open>importlib.import_module\<close> and \<^verbatim>\<open>getattr\<close>.\<close>

datatype pyobj = Function string string | Module string

text \<open>\<^verbatim>\<open>class Route\<close>: a pattern and a dictionary from method name to handler function.
  The dictionary is an association list; assigning to a key that is present replaces
  its value.\<close>

record route =
  r_pattern :: string
  r_method :: "(string \<times> pyobj) list"

text \<open>\<^verbatim>\<open>class MicroContext\<close>\<close>

record micro_context =
  http_max_content_length :: pyval
  http_max_line_length :: pyval
  http_max_header_count :: pyval
  hide_stack_trace :: pyval

text \<open>
  Modelled from the spec: \<^verbatim>\<open>rhc.resthandler.RESTMapper\<close> is not among the sources. A mapper
  holds its context and the routes added to it, each a pattern with its method table,
  in the order of the calls of \<^verbatim>\<open>add\<close>.
\<close>

record mapper =
  m_context :: micro_context
  m_routes :: "(string \<times> (string \<times> pyobj) list) list"

definition mapper_add :: "mapper \<Rightarrow> string \<Rightarrow> (string \<times> pyobj) list \<Rightarrow> mapper" where
  "mapper_add m pat meths = m\<lparr>m_routes := m_routes m @ [(pat, meths)]\<rparr>"

text \<open>\<^verbatim>\<open>rhc.tcpsocket.SSLParam(server_side=True, keyfile=..., certfile=...)\<close>\<close>

record ssl_param =
  keyfile :: pyval
  certfile :: pyval

datatype handler = MicroRESTHandler | HandlerModule pyobj

text \<open>\<^verbatim>\<open>class Server\<close>. The attribute \<^verbatim>\<open>route\<close> exists only after the first
  \<^verbatim>\<open>add_route\<close>: \<open>None\<close> is \<^verbatim>\<open>not hasattr(self, 'route')\<close>.\<close>

record server =
  s_name :: string
  s_mapper :: mapper
  s_is_active :: pyval
  s_port :: int
  s_handler :: handler
  s_ssl :: "ssl_param option"
  s_route :: "route option"

text \<open>The arguments of one call \<^verbatim>\<open>SERVER.add_server(port, handler, mapper, ssl=ssl)\<close>.\<close>

record listener =
  l_port :: int
  l_handler :: handler
  l_mapper :: mapper
  l_ssl :: "ssl_param option"

text \<open>
  What the launcher does to the world outside it, in the order it does it: it applies
  the override file \<^verbatim>\<open>config\<close> to the namespace, it calls the setup function with the
  namespace, it registers a listener.
\<close>

datatype effect =
    LoadOverride
  | CallSetup pyobj config
  | AddServer listener

text \<open>
  The world the launcher runs in; every field is something \<^verbatim>\<open>rhc/micro.py\<close> asks of
  a module that is not among the sources or of the operating system.
  \<^item> \<open>files\<close>: \<^verbatim>\<open>open(fname).readlines()\<close> for every path, \<open>None\<close> when the path cannot
    be opened; two spellings of a path can name one file;
  \<^item> \<open>recursion_limit\<close>: how many nested calls of \<^verbatim>\<open>_load\<close> the interpreter allows
    before it raises \<^verbatim>\<open>RuntimeError\<close> (maximum recursion depth exceeded);
  \<^item> \<open>find_module\<close>: the directory \<^verbatim>\<open>imp.find_module\<close> gives for a module name;
  \<^item> \<open>modules\<close>: the importable modules and the attributes each defines;
  \<^item> \<open>environ\<close>: the environment variables;
  \<^item> \<open>isfile\<close>: the paths that name an existing file (for \<^verbatim>\<open>validate_file\<close>);
  \<^item> \<open>config_exists\<close>: \<^verbatim>\<open>os.path.exists('config')\<close>;
  \<^item> \<open>cfg_load\<close>: what \<^verbatim>\<open>Config._load('config')\<close> does to the namespace;
  \<^item> \<open>cfg_getattr\<close>: the attribute of the namespace at a dotted path, if it has one;
  \<^item> \<open>call_setup\<close>: what calling a setup function with the namespace does to it;
  \<^item> \<open>accepts\<close>: whether \<^verbatim>\<open>SERVER.add_server\<close> takes a listener, given the ones it
    holds.
\<close>

record world =
  files :: "string \<Rightarrow> string list option"
  recursion_limit :: nat
  find_module :: "(string \<times> string) list"
  modules :: "(string \<times> string list) list"
  environ :: "(string \<times> string) list"
  isfile :: "string \<Rightarrow> bool"
  config_exists :: bool
  cfg_load :: "config \<Rightarrow> error + config"
  cfg_getattr :: "config \<Rightarrow> string \<Rightarrow> pyval option"
  call_setup :: "pyobj \<Rightarrow> config \<Rightarrow> error + config"
  accepts :: "listener list \<Rightarrow> listener \<Rightarrow> bool"

section \<open>The CONFIG and CONFIG\_SERVER directives\<close>

text \<open>
  Modelled from the spec: the validators \<^verbatim>\<open>validate_int\<close>, \<^verbatim>\<open>validate_bool\<close> and
  \<^verbatim>\<open>validate_file\<close> of \<^verbatim>\<open>rhc.config\<close> are not among the sources. \<open>int\<close> accepts an integer or
  a string of digits and gives the integer; \<open>bool\<close> accepts a boolean or the strings
  true and false in any case; \<open>file\<close> accepts a path that names an existing file.
  Calling a string raises TypeError.
\<close>

fun apply_validator :: "world \<Rightarrow> vfun \<Rightarrow> pyval \<Rightarrow> error + pyval" where
  "apply_validator w validate_int v =
     (case v of
        PInt n \<Rightarrow> Inr (PInt n)
      | PStr s \<Rightarrow> (case unsigned_of s of None \<Rightarrow> Inl ValidationFailure | Some n \<Rightarrow> Inr (PInt (int n)))
      | _ \<Rightarrow> Inl ValidationFailure)"
| "apply_validator w validate_bool v =
     (case v of
        PBool b \<Rightarrow> Inr (PBool b)
      | PStr s \<Rightarrow>
          if py_lower s = ''true'' then Inr (PBool True)
          else if py_lower s = ''false'' then Inr (PBool False)
          else Inl ValidationFailure
      | _ \<Rightarrow> Inl ValidationFailure)"
| "apply_validator w validate_file v =
     (case v of
        PStr s \<Rightarrow> if isfile w s then Inr (PStr s) else Inl ValidationFailure
      | _ \<Rightarrow> Inl ValidationFailure)"
| "apply_validator w (NotCallable s) v = Inl TypeError"

text \<open>
  \<^verbatim>\<open>_config_server(cfg, line)\<close>:
  \<^verbatim>\<open>
    name, port = line.split()
    cfg._define(name + '.port', value=int(port), validator=config.validate_int)
    cfg._define(name + '.is_active', value=True, validator=config.validate_bool)
    cfg._define(name + '.ssl.is_active', value=False, validator=config.validate_bool)
    cfg._define(name + '.ssl.keyfile', validator=config.validate_file)
    cfg._define(name + '.ssl.certfile', validator=config.validate_file)
    return (name + '.port', name + '.is_active', name + '.ssl.is_active',
            name + '.ssl.keyfile', name + '.ssl.certfile')
  \<close>
  The unpacking raises ValueError unless the line holds exactly two tokens, and
  \<^verbatim>\<open>int(port)\<close> is evaluated before the first \<^verbatim>\<open>_define\<close>.
\<close>

definition config_server :: "config \<Rightarrow> string \<Rightarrow> error + (config \<times> string list)" where
  "config_server cfg line =
     (case py_split_ws line of
        [name, port] \<Rightarrow>
          (case py_int_str port of
             Inl e \<Rightarrow> Inl e
           | Inr p \<Rightarrow>
               let cfg1 = cfg_define cfg (name @ ''.port'') (PInt p) (Some validate_int) None;
                   cfg2 = cfg_define cfg1 (name @ ''.is_active'') (PBool True) (Some validate_bool) None;
                   cfg3 = cfg_define cfg2 (name @ ''.ssl.is_active'') (PBool False) (Some validate_bool) None;
                   cfg4 = cfg_define cfg3 (name @ ''.ssl.keyfile'') PNone (Some validate_file) None;
                   cfg5 = cfg_define cfg4 (name @ ''.ssl.certfile'') PNone (Some validate_file) None
               in Inr (cfg5,
                       [name @ ''.port'', name @ ''.is_active'', name @ ''.ssl.is_active'',
                        name @ ''.ssl.keyfile'', name @ ''.ssl.certfile'']))
      | _ \<Rightarrow> Inl ValueError)"

text \<open>The keyword arguments \<^verbatim>\<open>_config\<close> collects: strings read from the line, then a
  validator function, then a validated value.\<close>

datatype kwval = KStr string | KFun vfun | KVal pyval

text \<open>\<^verbatim>\<open>{n: v for n, v in (t.split('=', 1) for t in line.split())}\<close>: a token without
  \<open>=\<close> fails the unpacking; a name given twice keeps its last value.\<close>

fun kwargs_of :: "string list \<Rightarrow> (string \<times> kwval) list \<Rightarrow> error + (string \<times> kwval) list" where
  "kwargs_of [] acc = Inr acc"
| "kwargs_of (t # ts) acc =
     (case py_split1 (CHR ''='') t of
        [n, v] \<Rightarrow> kwargs_of ts (AList.update n (KStr v) acc)
      | _ \<Rightarrow> Inl ValueError)"

text \<open>The \<^verbatim>\<open>validate\<close> step of \<^verbatim>\<open>_config\<close>.\<close>

definition select_validator :: "(string \<times> kwval) list \<Rightarrow> error + (string \<times> kwval) list" where
  "select_validator kwargs =
     (case map_of kwargs ''validate'' of
        None \<Rightarrow> Inr kwargs
      | Some v \<Rightarrow>
          if v = KStr ''int''
          then Inr (AList.update ''validator'' (KFun validate_int) (AList.delete ''validate'' kwargs))
          else if v = KStr ''bool''
          then Inr (AList.update ''validator'' (KFun validate_bool) (AList.delete ''validate'' kwargs))
          else if v = KStr ''file''
          then Inr (AList.update ''validator'' (KFun validate_file) (AList.delete ''validate'' kwargs))
          else Inl UnrecognizedValidation)"

definition kw_pyval :: "kwval \<Rightarrow> pyval" where
  "kw_pyval v = (case v of KStr s \<Rightarrow> PStr s | KVal x \<Rightarrow> x | KFun f \<Rightarrow> PNone)"

definition kw_vfun :: "kwval \<Rightarrow> vfun" where
  "kw_vfun v = (case v of KFun f \<Rightarrow> f | KStr s \<Rightarrow> NotCallable s | KVal x \<Rightarrow> NotCallable [])"

text \<open>The \<^verbatim>\<open>default\<close> step of \<^verbatim>\<open>_config\<close>.\<close>

definition apply_default :: "world \<Rightarrow> (string \<times> kwval) list \<Rightarrow> error + (string \<times> kwval) list" where
  "apply_default w kwargs =
     (case map_of kwargs ''default'' of
        None \<Rightarrow> Inr kwargs
      | Some d \<Rightarrow>
          let kwargs1 = AList.delete ''default'' (AList.update ''value'' d kwargs) in
          (case map_of kwargs1 ''validator'' of
             None \<Rightarrow> Inr kwargs1
           | Some f \<Rightarrow>
               (case apply_validator w (kw_vfun f) (kw_pyval d) of
                  Inl e \<Rightarrow> Inl e
                | Inr v \<Rightarrow> Inr (AList.update ''value'' (KVal v) kwargs1))))"

text \<open>
  Modelled from the spec: \<^verbatim>\<open>cfg._define(name, **kwargs)\<close>, of the class that is not among
  the sources, takes the keywords \<^verbatim>\<open>value\<close>, \<^verbatim>\<open>validator\<close> and \<^verbatim>\<open>env\<close>; any other keyword
  is a TypeError of the call.
\<close>

definition cfg_define_kwargs :: "config \<Rightarrow> string \<Rightarrow> (string \<times> kwval) list \<Rightarrow> error + config" where
  "cfg_define_kwargs cfg name kwargs =
     (if list_all (\<lambda>k. k \<in> set [''value'', ''validator'', ''env'']) (map fst kwargs)
      then Inr (cfg_define cfg name
                  (case map_of kwargs ''value'' of None \<Rightarrow> PNone | Some v \<Rightarrow> kw_pyval v)
                  (map_option kw_vfun (map_of kwargs ''validator''))
                  (case map_of kwargs ''env'' of Some (KStr e) \<Rightarrow> Some e | _ \<Rightarrow> None))
      else Inl TypeError)"

text \<open>
  \<^verbatim>\<open>_config(cfg, line)\<close>:
  \<^verbatim>\<open>
    line = line.split(' ', 1)
    if len(line) == 2:
        name, line = line
        kwargs = {n: v for n, v in (t.split('=', 1) for t in line.split())}
        if 'validate' in kwargs: ...
        if 'default' in kwargs: ...
    else:
        name = line[0]
        kwargs = {}
    cfg._define(name, **kwargs)
    return name
  \<close>
\<close>

definition config_directive :: "world \<Rightarrow> config \<Rightarrow> string \<Rightarrow> error + (config \<times> string)" where
  "config_directive w cfg line =
     (case py_split1 (CHR '' '') line of
        [name, rest] \<Rightarrow>
          (case kwargs_of (py_split_ws rest) [] of
             Inl e \<Rightarrow> Inl e
           | Inr kw0 \<Rightarrow>
               (case select_validator kw0 of
                  Inl e \<Rightarrow> Inl e
                | Inr kw1 \<Rightarrow>
                    (case apply_default w kw1 of
                       Inl e \<Rightarrow> Inl e
                     | Inr kw2 \<Rightarrow>
                         (case cfg_define_kwargs cfg name kw2 of
                            Inl e \<Rightarrow> Inl e
                          | Inr cfg' \<Rightarrow> Inr (cfg', name)))))
      | _ \<Rightarrow> Inr (cfg_define cfg (hd (py_split1 (CHR '' '') line)) PNone None None,
                  hd (py_split1 (CHR '' '') line)))"


section \<open>Loading a micro file and the files it imports\<close>

text \<open>
  The test \<^verbatim>\<open>len(ll) > 1 and ll[0].lower() == 'import'\<close> of \<^verbatim>\<open>_load\<close> on the tokens
  \<^verbatim>\<open>ll = l.split()\<close> of a line.
\<close>

definition is_import :: "string list \<Rightarrow> bool" where
  "is_import ll = (length ll > 1 \<and> py_lower (hd ll) = ''import'')"

text \<open>
  The file an IMPORT line names, from the tokens of the line and the directory of the
  importing file:
  \<^verbatim>\<open>
    import_fname = ' '.join(ll[1:])
    if '.' in import_fname and os.path.sep not in import_fname:
        parts = import_fname.split('.')
        sink, path, sink = imp.find_module(parts[0])
        import_fname = os.path.join(path, *parts[1:])
    elif not import_fname.startswith(os.path.sep):
        import_fname = os.path.join(dir_path, import_fname)
  \<close>
\<close>

definition import_target :: "world \<Rightarrow> string \<Rightarrow> string list \<Rightarrow> error + string" where
  "import_target w dir_path ll =
     (let import_fname = py_join '' '' (tl ll) in
      if CHR ''.'' \<in> set import_fname \<and> CHR ''/'' \<notin> set import_fname
      then (let parts = py_split_all (CHR ''.'') import_fname in
            case map_of (find_module w) (hd parts) of
              None \<Rightarrow> Inl (ImportError (hd parts))
            | Some path \<Rightarrow> Inr (py_path_join path (tl parts)))
      else if \<not> (import_fname \<noteq> [] \<and> hd import_fname = CHR ''/'')
      then Inr (py_path_join dir_path [import_fname])
      else Inr import_fname)"

text \<open>
  \<^verbatim>\<open>_load(fname, files, lines)\<close>:
  \<^verbatim>\<open>
    if fname in files:
        raise Exception('a micro file (in this case, %s) cannot be recursively imported' % fname)
    files.append(fname)
    dir_path = os.path.dirname(fname)
    for n, l in enumerate(open(fname).readlines(), start=1):
        ll = l.split()
        if len(ll) > 1 and ll[0].lower() == 'import':
            ...
            _load(import_fname, files, lines)
        else:
            lines.append((fname, n, l))
    return lines
  \<close>
  The lists \<^verbatim>\<open>files\<close> and \<^verbatim>\<open>lines\<close> are shared by all the calls and only grow: the
  model passes them in and returns them. \<open>load_file\<close> is the function, \<open>load_lines\<close> its
  loop; \<^verbatim>\<open>open(fname)\<close> of a path that cannot be opened raises \<^verbatim>\<open>IOError\<close>. The first
  argument is the number of nested calls that the interpreter still allows: a call
  beyond it raises \<^verbatim>\<open>RuntimeError\<close>, as every Python function does when the recursion is
  too deep.
\<close>

type_synonym src_line = "string \<times> nat \<times> string"

fun load_file ::
    "nat \<Rightarrow> world \<Rightarrow> string \<Rightarrow> string list \<Rightarrow> src_line list \<Rightarrow>
     error + string list \<times> src_line list"
  and load_lines ::
    "nat \<Rightarrow> world \<Rightarrow> string \<Rightarrow> string \<Rightarrow> nat \<Rightarrow> string list \<Rightarrow> string list \<Rightarrow> src_line list \<Rightarrow>
     error + string list \<times> src_line list"
where
  "load_file 0 w fname fs lines = Inl RuntimeError"
| "load_file (Suc d) w fname fs lines =
     (if fname \<in> set fs then Inl (RecursiveImport fname)
      else (case files w fname of
              None \<Rightarrow> Inl (IOError fname)
            | Some ls \<Rightarrow> load_lines d w fname (py_dirname fname) 1 ls (fs @ [fname]) lines))"
| "load_lines d w fname dir_path n [] fs lines = Inr (fs, lines)"
| "load_lines d w fname dir_path n (l # ls) fs lines =
     (if is_import (py_split_ws l)
      then (case import_target w dir_path (py_split_ws l) of
              Inl e \<Rightarrow> Inl e
            | Inr import_fname \<Rightarrow>
                (case load_file d w import_fname fs lines of
                   Inl e \<Rightarrow> Inl e
                 | Inr (fs', lines') \<Rightarrow>
                     load_lines d w fname dir_path (Suc n) ls fs' lines'))
      else load_lines d w fname dir_path (Suc n) ls fs (lines @ [(fname, n, l)]))"

text \<open>The call \<^verbatim>\<open>_load(s)\<close> of \<^verbatim>\<open>parse\<close>: both lists start empty, and the lines are
  returned.\<close>

definition load_micro :: "world \<Rightarrow> string \<Rightarrow> error + src_line list" where
  "load_micro w s =
     (case load_file (recursion_limit w) w s [] [] of
        Inl e \<Rightarrow> Inl e
      | Inr (fs, lines) \<Rightarrow> Inr lines)"






section \<open>Finding functions and modules by name\<close>

text \<open>\<^verbatim>\<open>importlib.import_module(path)\<close>: the attributes the module defines, or ImportError.\<close>

definition import_module :: "world \<Rightarrow> string \<Rightarrow> error + string list" where
  "import_module w path =
     (case map_of (modules w) path of
        None \<Rightarrow> Inl (ImportError path)
      | Some attrs \<Rightarrow> Inr attrs)"

text \<open>
  \<^verbatim>\<open>_import(item_path)\<close>:
  \<^verbatim>\<open>
    path, function = item_path.rsplit('.', 1)
    module = import_module(path)
    return getattr(module, function)
  \<close>
  A path with no dot fails the unpacking.
\<close>

definition import_function :: "world \<Rightarrow> string \<Rightarrow> error + pyobj" where
  "import_function w item_path =
     (case py_rsplit1 (CHR ''.'') item_path of
        [path, function] \<Rightarrow>
          (case import_module w path of
             Inl e \<Rightarrow> Inl e
           | Inr attrs \<Rightarrow>
               if function \<in> set attrs then Inr (Function path function)
               else Inl (AttributeError function))
      | _ \<Rightarrow> Inl ValueError)"

text \<open>\<^verbatim>\<open>_import(item_path, is_module=True)\<close>: \<^verbatim>\<open>return import_module(item_path)\<close>.\<close>

definition import_handler :: "world \<Rightarrow> pyval \<Rightarrow> error + handler" where
  "import_handler w v =
     (case v of
        PStr item_path \<Rightarrow>
          (case import_module w item_path of
             Inl e \<Rightarrow> Inl e
           | Inr attrs \<Rightarrow> Inr (HandlerModule (Module item_path)))
      | _ \<Rightarrow> Inl TypeError)"

section \<open>Route and Server\<close>

text \<open>
  \<^verbatim>\<open>getattr(obj, a)\<close> for the objects a Server is built from: a section of the
  namespace, or the one-field tuple of a PORT directive. \<open>None\<close> is AttributeError, and
  \<^verbatim>\<open>hasattr(obj, a)\<close> is \<open>py_getattr \<dots> \<noteq> None\<close>. The other values have none of the
  attributes the launcher asks for.
\<close>

definition py_getattr :: "world \<Rightarrow> config \<Rightarrow> pyval \<Rightarrow> string \<Rightarrow> pyval option" where
  "py_getattr w cfg obj a =
     (case obj of
        PSection p \<Rightarrow> cfg_getattr w cfg (p @ ''.'' @ a)
      | PPortTuple n \<Rightarrow> (if a = ''port'' then Some (PInt n) else None)
      | _ \<Rightarrow> None)"

text \<open>\<^verbatim>\<open>config.a if hasattr(config, 'a') else d\<close>\<close>

definition attr_or :: "world \<Rightarrow> config \<Rightarrow> pyval \<Rightarrow> string \<Rightarrow> pyval \<Rightarrow> pyval" where
  "attr_or w cfg obj a d = (case py_getattr w cfg obj a of None \<Rightarrow> d | Some v \<Rightarrow> v)"

text \<open>
  The last lines of \<^verbatim>\<open>Server.__init__\<close>:
  \<^verbatim>\<open>
    self.ssl = None
    if hasattr(config, 'ssl') and config.ssl.is_active:
        self.ssl = SSLParam(server_side=True,
                            keyfile=config.ssl.keyfile, certfile=config.ssl.certfile)
  \<close>
\<close>

definition server_ssl :: "world \<Rightarrow> config \<Rightarrow> pyval \<Rightarrow> error + ssl_param option" where
  "server_ssl w cfg obj =
     (case py_getattr w cfg obj ''ssl'' of
        None \<Rightarrow> Inr None
      | Some sslobj \<Rightarrow>
          (case py_getattr w cfg sslobj ''is_active'' of
             None \<Rightarrow> Inl (AttributeError ''is_active'')
           | Some a \<Rightarrow>
               if py_truthy a
               then (case py_getattr w cfg sslobj ''keyfile'' of
                       None \<Rightarrow> Inl (AttributeError ''keyfile'')
                     | Some k \<Rightarrow>
                         (case py_getattr w cfg sslobj ''certfile'' of
                            None \<Rightarrow> Inl (AttributeError ''certfile'')
                          | Some c \<Rightarrow> Inr (Some \<lparr>keyfile = k, certfile = c\<rparr>)))
               else Inr None))"

text \<open>
  \<^verbatim>\<open>Server.__init__(self, name, config)\<close>: the context and the mapper, then
  \<^verbatim>\<open>is_active\<close>, then \<^verbatim>\<open>self.port = int(config.port)\<close>, then the handler, then ssl; the
  first of these that raises ends the construction.
\<close>

definition Server_init :: "world \<Rightarrow> config \<Rightarrow> string \<Rightarrow> pyval \<Rightarrow> error + server" where
  "Server_init w cfg name obj =
     (let context = \<lparr>http_max_content_length = attr_or w cfg obj ''http_max_content_length'' PNone,
                     http_max_line_length = attr_or w cfg obj ''http_max_line_length'' (PInt 10000),
                     http_max_header_count = attr_or w cfg obj ''http_max_header_count'' (PInt 100),
                     hide_stack_trace = attr_or w cfg obj ''hide_stack_trace'' (PBool True)\<rparr>;
          active = attr_or w cfg obj ''is_active'' (PBool True)
      in case py_getattr w cfg obj ''port'' of
           None \<Rightarrow> Inl (AttributeError ''port'')
         | Some pv \<Rightarrow>
             (case py_int pv of
                Inl e \<Rightarrow> Inl e
              | Inr p \<Rightarrow>
                  (case (case py_getattr w cfg obj ''handler'' of
                           None \<Rightarrow> Inr MicroRESTHandler
                         | Some hv \<Rightarrow> import_handler w hv) of
                     Inl e \<Rightarrow> Inl e
                   | Inr h \<Rightarrow>
                       (case server_ssl w cfg obj of
                          Inl e \<Rightarrow> Inl e
                        | Inr sp \<Rightarrow>
                            Inr \<lparr>s_name = name,
                                 s_mapper = \<lparr>m_context = context, m_routes = []\<rparr>,
                                 s_is_active = active, s_port = p, s_handler = h,
                                 s_ssl = sp, s_route = None\<rparr>))))"

text \<open>
  \<^verbatim>\<open>
    if hasattr(self, 'route'):
        self.mapper.add(self.route.pattern, **self.route.method)
  \<close>
  the two lines that \<^verbatim>\<open>add_route\<close> and \<^verbatim>\<open>done\<close> share.
\<close>

definition flush_route :: "server \<Rightarrow> mapper" where
  "flush_route srv =
     (case s_route srv of
        None \<Rightarrow> s_mapper srv
      | Some r \<Rightarrow> mapper_add (s_mapper srv) (r_pattern r) (r_method r))"

text \<open>\<^verbatim>\<open>Server.add_route(self, pattern)\<close>: the open route, if any, goes to the mapper; then
  \<^verbatim>\<open>self.route = Route(pattern)\<close>, a route with an empty method table.\<close>

definition add_route :: "server \<Rightarrow> string \<Rightarrow> server" where
  "add_route srv pat =
     srv\<lparr>s_mapper := flush_route srv, s_route := Some \<lparr>r_pattern = pat, r_method = []\<rparr>\<rparr>"

text \<open>\<^verbatim>\<open>Server.add_method(self, method, path)\<close>, that is \<^verbatim>\<open>Route.add\<close>:
  \<^verbatim>\<open>self.method[method] = _import(path)\<close> on the open route.\<close>

definition add_method :: "world \<Rightarrow> server \<Rightarrow> string \<Rightarrow> string \<Rightarrow> error + server" where
  "add_method w srv meth path =
     (case s_route srv of
        None \<Rightarrow> Inl (AttributeError ''route'')
      | Some r \<Rightarrow>
          (case import_function w path of
             Inl e \<Rightarrow> Inl e
           | Inr f \<Rightarrow> Inr (srv\<lparr>s_route := Some (r\<lparr>r_method := AList.update meth f (r_method r)\<rparr>)\<rparr>)))"

text \<open>The listeners registered so far.\<close>

fun registered :: "effect list \<Rightarrow> listener list" where
  "registered [] = []"
| "registered (AddServer l # es) = l # registered es"
| "registered (e # es) = registered es"

text \<open>
  \<^verbatim>\<open>Server.done(self)\<close>:
  \<^verbatim>\<open>
    if self.is_active:
        if hasattr(self, 'route'):
            self.mapper.add(self.route.pattern, **self.route.method)
        try:
            SERVER.add_server(self.port, self.handler, self.mapper, ssl=self.ssl)
        except Exception:
            log.error(...)
            raise
  \<close>
  The result is the exception if one was raised, the server and the effects so far.
\<close>

definition Server_done ::
    "world \<Rightarrow> server \<Rightarrow> effect list \<Rightarrow> error option \<times> server \<times> effect list" where
  "Server_done w srv es =
     (if py_truthy (s_is_active srv)
      then (let srv' = srv\<lparr>s_mapper := flush_route srv\<rparr>;
                l = \<lparr>l_port = s_port srv', l_handler = s_handler srv',
                     l_mapper = s_mapper srv', l_ssl = s_ssl srv'\<rparr>
            in if accepts w (registered es) l
               then (None, srv', es @ [AddServer l])
               else (Some AddServerFailed, srv', es))
      else (None, srv, es))"

section \<open>The finite state machine\<close>

text \<open>The five handlers \<^verbatim>\<open>self.state\<close> can hold.\<close>

datatype fsm_state = Init | Config | ServerOpen | RouteOpen | Done

text \<open>
  \<^verbatim>\<open>class FSM\<close>. The attribute \<^verbatim>\<open>teardown\<close> starts as a function that does nothing
  (\<open>None\<close>); \<^verbatim>\<open>server\<close> exists once a SERVER or PORT directive was handled. \<^verbatim>\<open>data\<close> is
  the value of the directive being handled: \<^verbatim>\<open>parse\<close> passes a string with every
  directive of the file and \<^verbatim>\<open>None\<close> only with the final \<^verbatim>\<open>done\<close>, whose handlers do not
  read it, so the model keeps a string (empty for \<^verbatim>\<open>None\<close>). \<open>effects\<close> is not an attribute
  of the class: it records, in order, what the handlers did to the world outside.
\<close>

record fsm =
  state :: fsm_state
  teardown :: "pyobj option"
  config :: config
  config_keys :: "string list"
  ports :: "(int \<times> string) list"
  server :: "server option"
  data :: string
  effects :: "effect list"

text \<open>\<^verbatim>\<open>FSM.__init__\<close>\<close>

definition FSM_init :: fsm where
  "FSM_init =
     \<lparr>state = Init, teardown = None, config = [], config_keys = [], ports = [],
      server = None, data = [], effects = []\<rparr>"

text \<open>The events that are CONFIG or CONFIG\_SERVER directives.\<close>

definition is_config_event :: "string \<Rightarrow> bool" where
  "is_config_event event = (event = ''config'' \<or> event = ''config_server'')"

text \<open>
  The first two branches of \<^verbatim>\<open>state_config\<close>:
  \<^verbatim>\<open>
    if event == 'config':
        self.config_keys.append(_config(self.config, self.data))
    elif event == 'config_server':
        self.config_keys.extend(_config_server(self.config, self.data))
  \<close>
  \<^verbatim>\<open>state_init\<close> reaches them too: on these two events it sets
  \<^verbatim>\<open>self.state = self.state_config\<close> and calls \<^verbatim>\<open>self.state(event)\<close>. They are a function of
  their own here so that \<open>state_init\<close> and \<open>state_config\<close>, which call each other in the
  source, are two plain definitions.
\<close>

definition config_branches :: "world \<Rightarrow> fsm \<Rightarrow> string \<Rightarrow> error option \<times> fsm" where
  "config_branches w m event =
     (if event = ''config''
      then (case config_directive w (config m) (data m) of
              Inl e \<Rightarrow> (Some e, m)
            | Inr (cfg, name) \<Rightarrow>
                (None, m\<lparr>config := cfg, config_keys := config_keys m @ [name]\<rparr>))
      else (case config_server (config m) (data m) of
              Inl e \<Rightarrow> (Some e, m)
            | Inr (cfg, names) \<Rightarrow>
                (None, m\<lparr>config := cfg, config_keys := config_keys m @ names\<rparr>)))"

text \<open>
  The lines that the \<^verbatim>\<open>server\<close> branches of \<^verbatim>\<open>state_init\<close> and \<^verbatim>\<open>state_route\<close> share:
  \<^verbatim>\<open>
    self.server = Server(self.data, getattr(self.config, self.data))
    if self.server.port in self.ports:
        raise Exception('port %s already defined for server "%s"' % (...))
    self.ports[self.server.port] = self.server.name
    self.state = self.state_server
  \<close>
\<close>

definition open_server :: "world \<Rightarrow> fsm \<Rightarrow> error option \<times> fsm" where
  "open_server w m =
     (case cfg_getattr w (config m) (data m) of
        None \<Rightarrow> (Some (AttributeError (data m)), m)
      | Some obj \<Rightarrow>
          (case Server_init w (config m) (data m) obj of
             Inl e \<Rightarrow> (Some e, m)
           | Inr srv \<Rightarrow>
               (case map_of (ports m) (s_port srv) of
                  Some n \<Rightarrow> (Some (PortAlreadyDefined (s_port srv) n), m\<lparr>server := Some srv\<rparr>)
                | None \<Rightarrow>
                    (None, m\<lparr>server := Some srv,
                              ports := AList.update (s_port srv) (s_name srv) (ports m),
                              state := ServerOpen\<rparr>))))"

text \<open>
  The lines that the \<^verbatim>\<open>port\<close> branches of \<^verbatim>\<open>state_init\<close> and \<^verbatim>\<open>state_route\<close> share:
  \<^verbatim>\<open>
    self.server = Server('default', namedtuple('config', 'port')(int(self.data)))
    self.state = self.state_server
  \<close>
  Nothing here looks at \<^verbatim>\<open>self.ports\<close> or adds to it.
\<close>

definition open_port :: "world \<Rightarrow> fsm \<Rightarrow> error option \<times> fsm" where
  "open_port w m =
     (case py_int_str (data m) of
        Inl e \<Rightarrow> (Some e, m)
      | Inr n \<Rightarrow>
          (case Server_init w (config m) ''default'' (PPortTuple n) of
             Inl e \<Rightarrow> (Some e, m)
           | Inr srv \<Rightarrow> (None, m\<lparr>server := Some srv, state := ServerOpen\<rparr>)))"

text \<open>\<^verbatim>\<open>self.server.done()\<close> on the machine: the server and the effects are updated also when
  the call raises.\<close>

definition finish_server :: "world \<Rightarrow> fsm \<Rightarrow> error option \<times> fsm" where
  "finish_server w m =
     (case server m of
        None \<Rightarrow> (Some (AttributeError ''server''), m)
      | Some srv \<Rightarrow>
          (case Server_done w srv (effects m) of
             (r, srv', es) \<Rightarrow> (r, m\<lparr>server := Some srv', effects := es\<rparr>)))"

text \<open>
  \<^verbatim>\<open>FSM.state_init(self, event)\<close>. The \<^verbatim>\<open>setup\<close> branch is
  \<^verbatim>\<open>
    path = os.getenv('MICRO_SETUP', self.data)
    _import(path)(self.config)
  \<close>
  and the call is recorded in the effects with the namespace it was given.
\<close>

definition state_init :: "world \<Rightarrow> fsm \<Rightarrow> string \<Rightarrow> error option \<times> fsm" where
  "state_init w m event =
     (if is_config_event event then config_branches w (m\<lparr>state := Config\<rparr>) event
      else if event = ''setup''
      then (let path = (case map_of (environ w) ''MICRO_SETUP'' of
                          None \<Rightarrow> data m
                        | Some v \<Rightarrow> v)
            in case import_function w path of
                 Inl e \<Rightarrow> (Some e, m)
               | Inr f \<Rightarrow>
                   (case call_setup w f (config m) of
                      Inl e \<Rightarrow> (Some e, m\<lparr>effects := effects m @ [CallSetup f (config m)]\<rparr>)
                    | Inr cfg \<Rightarrow>
                        (None, m\<lparr>config := cfg,
                                  effects := effects m @ [CallSetup f (config m)]\<rparr>)))
      else if event = ''teardown''
      then (case import_function w (data m) of
              Inl e \<Rightarrow> (Some e, m)
            | Inr f \<Rightarrow> (None, m\<lparr>teardown := Some f\<rparr>))
      else if event = ''server'' then open_server w m
      else if event = ''port'' then open_port w m
      else if event = ''done'' then (None, m\<lparr>state := Done\<rparr>)
      else (Some (InvalidRecord event), m))"

text \<open>
  \<^verbatim>\<open>FSM.state_config(self, event)\<close>. Its last branch is
  \<^verbatim>\<open>
    if os.path.exists('config'):
        self.config._load('config')  # process config file
    self.state = self.state_init     # switch states before processing event
    self.state(event)
  \<close>
\<close>

definition state_config :: "world \<Rightarrow> fsm \<Rightarrow> string \<Rightarrow> error option \<times> fsm" where
  "state_config w m event =
     (if is_config_event event then config_branches w m event
      else if config_exists w
      then (case cfg_load w (config m) of
              Inl e \<Rightarrow> (Some e, m\<lparr>effects := effects m @ [LoadOverride]\<rparr>)
            | Inr cfg \<Rightarrow>
                state_init w (m\<lparr>config := cfg, effects := effects m @ [LoadOverride],
                                 state := Init\<rparr>) event)
      else state_init w (m\<lparr>state := Init\<rparr>) event)"

text \<open>\<^verbatim>\<open>FSM.state_server(self, event)\<close>\<close>

definition state_server :: "world \<Rightarrow> fsm \<Rightarrow> string \<Rightarrow> error option \<times> fsm" where
  "state_server w m event =
     (if event = ''route''
      then (case server m of
              None \<Rightarrow> (Some (AttributeError ''server''), m)
            | Some srv \<Rightarrow> (None, m\<lparr>server := Some (add_route srv (data m)), state := RouteOpen\<rparr>))
      else if event = ''done''
      then (case finish_server w m of
              (Some e, m') \<Rightarrow> (Some e, m')
            | (None, m') \<Rightarrow> (None, m'\<lparr>state := Done\<rparr>))
      else (Some (InvalidRecord event), m))"

text \<open>\<^verbatim>\<open>FSM.state_route(self, event)\<close>\<close>

definition state_route :: "world \<Rightarrow> fsm \<Rightarrow> string \<Rightarrow> error option \<times> fsm" where
  "state_route w m event =
     (if event \<in> set [''get'', ''post'', ''put'', ''delete'']
      then (case server m of
              None \<Rightarrow> (Some (AttributeError ''server''), m)
            | Some srv \<Rightarrow>
                (case add_method w srv event (data m) of
                   Inl e \<Rightarrow> (Some e, m)
                 | Inr srv' \<Rightarrow> (None, m\<lparr>server := Some srv'\<rparr>)))
      else if event = ''route''
      then (case server m of
              None \<Rightarrow> (Some (AttributeError ''server''), m)
            | Some srv \<Rightarrow> (None, m\<lparr>server := Some (add_route srv (data m))\<rparr>))
      else if event = ''server''
      then (case finish_server w m of
              (Some e, m') \<Rightarrow> (Some e, m')
            | (None, m') \<Rightarrow> open_server w m')
      else if event = ''port''
      then (case finish_server w m of
              (Some e, m') \<Rightarrow> (Some e, m')
            | (None, m') \<Rightarrow> open_port w m')
      else if event = ''done''
      then (case finish_server w m of
              (Some e, m') \<Rightarrow> (Some e, m')
            | (None, m') \<Rightarrow> (None, m'\<lparr>state := Done\<rparr>))
      else (Some (InvalidRecord event), m))"

text \<open>\<^verbatim>\<open>FSM.state_done(self, event)\<close>\<close>

definition state_done :: "world \<Rightarrow> fsm \<Rightarrow> string \<Rightarrow> error option \<times> fsm" where
  "state_done w m event = (Some (UnexpectedEvent event), m)"

text \<open>One directive as \<^verbatim>\<open>parse\<close> gives it to the machine: the event, its data
  (\<open>None\<close> with the final \<^verbatim>\<open>done\<close>), the file and the line number.\<close>

record event =
  e_name :: string
  e_data :: "string option"
  e_file :: string
  e_line :: nat

text \<open>\<^verbatim>\<open>self.state(event)\<close>\<close>

definition dispatch :: "world \<Rightarrow> fsm \<Rightarrow> string \<Rightarrow> error option \<times> fsm" where
  "dispatch w m ev =
     (case state m of
        Init \<Rightarrow> state_init w m ev
      | Config \<Rightarrow> state_config w m ev
      | ServerOpen \<Rightarrow> state_server w m ev
      | RouteOpen \<Rightarrow> state_route w m ev
      | Done \<Rightarrow> state_done w m ev)"

text \<open>
  \<^verbatim>\<open>FSM.handle(self, event, data, fname, linenum)\<close>:
  \<^verbatim>\<open>
    self.data = data
    try:
        self.state(event)
    except Exception as e:
        raise Exception('%s, line=%d of %s' % (e, linenum, fname))
  \<close>
\<close>

definition handle :: "world \<Rightarrow> fsm \<Rightarrow> event \<Rightarrow> error option \<times> fsm" where
  "handle w m ev =
     (case dispatch w (m\<lparr>data := (case e_data ev of None \<Rightarrow> [] | Some v \<Rightarrow> v)\<rparr>) (e_name ev) of
        (None, m') \<Rightarrow> (None, m')
      | (Some e, m') \<Rightarrow> (Some (AtLine e (e_line ev) (e_file ev)), m'))"

text \<open>The machine on a stream of directives: it stops at the first exception.\<close>

fun run_events :: "world \<Rightarrow> fsm \<Rightarrow> event list \<Rightarrow> error option \<times> fsm" where
  "run_events w m [] = (None, m)"
| "run_events w m (ev # evs) =
     (case handle w m ev of
        (None, m') \<Rightarrow> run_events w m' evs
      | (Some e, m') \<Rightarrow> (Some e, m'))"

section \<open>parse\<close>

text \<open>
  The loop of \<^verbatim>\<open>parse\<close> over the loaded lines. The last argument is the value of the loop
  variables \<^verbatim>\<open>fname\<close> and \<^verbatim>\<open>lnum\<close> (\<open>None\<close> before the first line), which the statement
  after the loop reads.
  \<^verbatim>\<open>
    for fname, lnum, l in lines:
        (the lexing step)
        if config_only and n not in ('config', 'config_server'):
            continue
        fsm.handle(n, v, fname, lnum)
  \<close>
\<close>

fun parse_lines ::
    "world \<Rightarrow> bool \<Rightarrow> fsm \<Rightarrow> src_line list \<Rightarrow> (string \<times> nat) option \<Rightarrow>
     error option \<times> fsm \<times> (string \<times> nat) option" where
  "parse_lines w config_only m [] seen = (None, m, seen)"
| "parse_lines w config_only m ((fname, lnum, l) # rest) seen =
     (case lex_line l of
        Inl e \<Rightarrow> (Some e, m, Some (fname, lnum))
      | Inr None \<Rightarrow> parse_lines w config_only m rest (Some (fname, lnum))
      | Inr (Some (n, v)) \<Rightarrow>
          if config_only \<and> \<not> is_config_event n
          then parse_lines w config_only m rest (Some (fname, lnum))
          else (case handle w m \<lparr>e_name = n, e_data = Some v, e_file = fname, e_line = lnum\<rparr> of
                  (Some e, m') \<Rightarrow> (Some e, m', Some (fname, lnum))
                | (None, m') \<Rightarrow> parse_lines w config_only m' rest (Some (fname, lnum))))"

text \<open>What \<^verbatim>\<open>parse\<close> returns: the namespace and the names of its keys when
  \<^verbatim>\<open>config_only\<close>, else \<^verbatim>\<open>(sleep, max_iterations, teardown)\<close>.\<close>

datatype parse_result =
    ConfigOnly config "string list"
  | Control pyval pyval "pyobj option"

text \<open>
  The end of \<^verbatim>\<open>parse\<close>:
  \<^verbatim>\<open>
    sleep = 100
    max_iterations = 100
    if hasattr(fsm, 'config'):
        if hasattr(fsm.config, 'loop'):
            sleep = fsm.config.loop.sleep
            max_iterations = fsm.config.loop.max_iterations
    return namedtuple('control', 'sleep, max_iterations, teardown')(sleep, max_iterations, fsm.teardown)
  \<close>
\<close>

definition control_of :: "world \<Rightarrow> fsm \<Rightarrow> error + parse_result" where
  "control_of w m =
     (case cfg_getattr w (config m) ''loop'' of
        None \<Rightarrow> Inr (Control (PInt 100) (PInt 100) (teardown m))
      | Some loopobj \<Rightarrow>
          (case py_getattr w (config m) loopobj ''sleep'' of
             None \<Rightarrow> Inl (AttributeError ''sleep'')
           | Some s \<Rightarrow>
               (case py_getattr w (config m) loopobj ''max_iterations'' of
                  None \<Rightarrow> Inl (AttributeError ''max_iterations'')
                | Some i \<Rightarrow> Inr (Control s i (teardown m)))))"

text \<open>
  \<^verbatim>\<open>parse\<close> on loaded lines: the loop, then
  \<^verbatim>\<open>fsm.handle('done', None, fname, lnum + 1)\<close>, which reads the loop variables and
  fails when the loop body never ran, then the result. Returned with the result are the
  effects on the world, which an exception does not undo.
\<close>

definition parse_loaded ::
    "world \<Rightarrow> bool \<Rightarrow> src_line list \<Rightarrow> (error + parse_result) \<times> effect list" where
  "parse_loaded w config_only lines =
     (case parse_lines w config_only FSM_init lines None of
        (Some e, m, seen) \<Rightarrow> (Inl e, effects m)
      | (None, m, None) \<Rightarrow> (Inl UnboundLocalError, effects m)
      | (None, m, Some (fname, lnum)) \<Rightarrow>
          (case handle w m \<lparr>e_name = ''done'', e_data = None, e_file = fname, e_line = Suc lnum\<rparr> of
             (Some e, m') \<Rightarrow> (Inl e, effects m')
           | (None, m') \<Rightarrow>
               if config_only then (Inr (ConfigOnly (config m') (config_keys m')), effects m')
               else (control_of w m', effects m')))"

text \<open>\<^verbatim>\<open>parse(s, config_only)\<close>: nothing has been done to the world when the loader
  raises.\<close>

definition parse ::
    "world \<Rightarrow> string \<Rightarrow> bool \<Rightarrow> (error + parse_result) \<times> effect list" where
  "parse w s config_only =
     (case load_micro w s of
        Inl e \<Rightarrow> (Inl e, [])
      | Inr lines \<Rightarrow> parse_loaded w config_only lines)"

section \<open>Notions used to state the properties\<close>

text \<open>The machine has left the configuration part: a server is open, or the stream is
  over.\<close>

definition past_init :: "fsm \<Rightarrow> bool" where
  "past_init m = (state m = ServerOpen \<or> state m = RouteOpen \<or> state m = Done)"

text \<open>How many times the override file was applied.\<close>

definition override_loads :: "effect list \<Rightarrow> nat" where
  "override_loads es = length (filter (\<lambda>e. e = LoadOverride) es)"

text \<open>
  In a stream of event names, the number of times a directive that is not CONFIG or
  CONFIG\_SERVER comes right after one that is; the flag says whether the event before
  the stream was one.
\<close>

fun config_exits :: "bool \<Rightarrow> string list \<Rightarrow> nat" where
  "config_exits c [] = 0"
| "config_exits c (n # ns) =
     (if is_config_event n then config_exits True ns
      else (if c then 1 else 0) + config_exits False ns)"

text \<open>A line that is not a CONFIG or CONFIG\_SERVER directive.\<close>

definition not_config_line :: "src_line \<Rightarrow> bool" where
  "not_config_line sl =
     (case lex_line (snd (snd sl)) of
        Inr (Some (n, v)) \<Rightarrow> \<not> is_config_event n
      | _ \<Rightarrow> True)"

text \<open>The directives that the loop of \<^verbatim>\<open>parse\<close> gives to the machine, when every line can
  be lexed: the blank lines are skipped, and with \<^verbatim>\<open>config_only\<close> so are the directives
  that are not CONFIG or CONFIG\_SERVER.\<close>

fun dispatched :: "bool \<Rightarrow> src_line list \<Rightarrow> event list" where
  "dispatched config_only [] = []"
| "dispatched config_only ((fname, lnum, l) # rest) =
     (case lex_line l of
        Inr (Some (n, v)) \<Rightarrow>
          if config_only \<and> \<not> is_config_event n then dispatched config_only rest
          else \<lparr>e_name = n, e_data = Some v, e_file = fname, e_line = lnum\<rparr>
               # dispatched config_only rest
      | _ \<Rightarrow> dispatched config_only rest)"

text \<open>
  The last call of \<^verbatim>\<open>parse\<close> on the machine, \<^verbatim>\<open>fsm.handle('done', None, fname, lnum + 1)\<close>,
  with the values the loop variables have after the last line; and all the directives
  that \<^verbatim>\<open>parse\<close> gives to the machine, when no line fails.
\<close>

definition final_event :: "src_line list \<Rightarrow> event" where
  "final_event lines =
     \<lparr>e_name = ''done'', e_data = None, e_file = fst (last lines),
      e_line = Suc (fst (snd (last lines)))\<rparr>"

definition events_of :: "bool \<Rightarrow> src_line list \<Rightarrow> event list" where
  "events_of config_only lines = dispatched config_only lines @ [final_event lines]"

text \<open>A line that is a directive other than CONFIG, CONFIG\_SERVER, SETUP and TEARDOWN.\<close>

definition leaves_init :: "src_line \<Rightarrow> bool" where
  "leaves_init sl =
     (case lex_line (snd (snd sl)) of
        Inr (Some (n, v)) \<Rightarrow> n \<notin> set [''config'', ''config_server'', ''setup'', ''teardown'']
      | _ \<Rightarrow> False)"


section \<open>Example worlds\<close>

text \<open>
  Modelled from the spec: attribute resolution of the configuration namespace, which
  belongs to the class that is not among the sources. The attribute at a dotted path is
  the value of the key registered last under that name; a path that is a proper prefix
  of registered names, up to a dot, is a section. (The examples set no environment
  variable and have no override file, so the value is the default.)
\<close>

definition keys_getattr :: "config \<Rightarrow> string \<Rightarrow> pyval option" where
  "keys_getattr cfg path =
     (case find (\<lambda>k. ck_name k = path) (rev cfg) of
        Some k \<Rightarrow> Some (ck_value k)
      | None \<Rightarrow>
          if list_ex (\<lambda>k. take (Suc (length path)) (ck_name k) = path @ ''.'') cfg
          then Some (PSection path)
          else None)"

text \<open>A world with the given files, each under one spelling of its path, and one
  importable module \<open>handle\<close> that defines \<open>ping\<close>, \<open>pong\<close>, \<open>setup\<close> and \<open>teardown\<close>; a
  thousand nested calls are allowed; no override file, no environment variable; every
  listener is accepted.\<close>

definition world_of :: "(string \<times> string list) list \<Rightarrow> world" where
  "world_of fs =
     \<lparr>files = map_of fs, recursion_limit = 1000, find_module = [],
      modules = [(''handle'', [''ping'', ''pong'', ''setup'', ''teardown''])],
      environ = [], isfile = (\<lambda>p. False), config_exists = False,
      cfg_load = (\<lambda>cfg. Inr cfg), cfg_getattr = keys_getattr,
      call_setup = (\<lambda>f cfg. Inr cfg), accepts = (\<lambda>ls l. True)\<rparr>"




text \<open>One file, which \<open>micro\<close>, \<open>./micro\<close>, \<open>././micro\<close> and so on all name, and which
  imports itself as \<open>./micro\<close>; twenty nested calls are allowed.\<close>

fun strip_dot_slash :: "string \<Rightarrow> string" where
  "strip_dot_slash (a # b # p) =
     (if a = CHR ''.'' \<and> b = CHR ''/'' then strip_dot_slash p else a # b # p)"
| "strip_dot_slash p = p"

definition alias_world :: world where
  "alias_world =
     (world_of [])
       \<lparr>files := (\<lambda>p. if strip_dot_slash p = ''micro'' then Some [''IMPORT ./micro''] else None),
        recursion_limit := 20\<rparr>"

text \<open>\<open>micro\<close> imports \<open>b\<close> twice; \<open>b\<close> imports nothing.\<close>

definition twice_world :: world where
  "twice_world =
     world_of [(''micro'', [''PORT 12345'', ''IMPORT b'', ''IMPORT b'']),
               (''b'', [''ROUTE /ping?'', ''GET handle.ping''])]"

text \<open>No file; the environment variable \<^verbatim>\<open>MICRO_SETUP\<close> is set to \<open>handle.setup\<close>.\<close>

definition setup_world :: world where
  "setup_world = (world_of [])\<lparr>environ := [(''MICRO_SETUP'', ''handle.setup'')]\<rparr>"

text \<open>As \<open>setup_world\<close>, with an override file that registers one more key.\<close>

definition override_world :: world where
  "override_world =
     setup_world
       \<lparr>config_exists := True,
        cfg_load := (\<lambda>cfg. Inr (cfg_define cfg ''extra'' (PInt 1) None None))\<rparr>"

text \<open>The listener that a PORT directive registers: the default handler and limits, no
  ssl, and the routes given.\<close>

definition plain_listener :: "int \<Rightarrow> (string \<times> (string \<times> pyobj) list) list \<Rightarrow> listener" where
  "plain_listener p routes =
     \<lparr>l_port = p, l_handler = MicroRESTHandler,
      l_mapper = \<lparr>m_context = \<lparr>http_max_content_length = PNone,
                                http_max_line_length = PInt 10000,
                                http_max_header_count = PInt 100,
                                hide_stack_trace = PBool True\<rparr>,
                  m_routes = routes\<rparr>,
      l_ssl = None\<rparr>"

text \<open>The example of the documentation of \<^verbatim>\<open>rhc/micro.py\<close>.\<close>

definition ping_world :: world where
  "ping_world =
     world_of [(''micro'', [''PORT 12345'', ''ROUTE /ping?'', ''    GET handle.ping''])]"

text \<open>The server that a PORT directive opens in the example worlds.\<close>

definition port_server :: "int \<Rightarrow> server" where
  "port_server p =
     \<lparr>s_name = ''default'',
      s_mapper = \<lparr>m_context = \<lparr>http_max_content_length = PNone,
                                http_max_line_length = PInt 10000,
                                http_max_header_count = PInt 100,
                                hide_stack_trace = PBool True\<rparr>,
                  m_routes = []\<rparr>,
      s_is_active = PBool True, s_port = p, s_handler = MicroRESTHandler, s_ssl = None,
      s_route = None\<rparr>"

text \<open>
  Two sections \<open>a\<close> and \<open>b\<close> of the namespace with the same port, and the machine of
  \<^verbatim>\<open>parse\<close> in the world with no file: after a SERVER directive for \<open>a\<close>; after a ROUTE and
  a GET directive; and after the server \<open>a\<close> was registered, when the data is \<open>b\<close>.
\<close>

definition same_port_lines :: "src_line list" where
  "same_port_lines =
     [(''micro'', 1, ''CONFIG a.port default=8000''),
      (''micro'', 2, ''CONFIG b.port default=8000'')]"

definition named_server :: "string \<Rightarrow> int \<Rightarrow> server" where
  "named_server name p = (port_server p)\<lparr>s_name := name\<rparr>"

definition after_server_a :: fsm where
  "after_server_a =
     FSM_init
       \<lparr>state := ServerOpen,
        config := [\<lparr>ck_name = ''a.port'', ck_value = PStr ''8000'', ck_validator = None,
                    ck_env = None\<rparr>,
                   \<lparr>ck_name = ''b.port'', ck_value = PStr ''8000'', ck_validator = None,
                    ck_env = None\<rparr>],
        config_keys := [''a.port'', ''b.port''],
        ports := [(8000, ''a'')],
        server := Some (named_server ''a'' 8000),
        data := ''a''\<rparr>"

definition after_get_a :: fsm where
  "after_get_a =
     after_server_a
       \<lparr>state := RouteOpen,
        server := Some ((named_server ''a'' 8000)
                          \<lparr>s_route := Some \<lparr>r_pattern = ''/a'',
                                             r_method = [(''get'', Function ''handle'' ''ping'')]\<rparr>\<rparr>),
        data := ''handle.ping''\<rparr>"

definition after_finish_a :: fsm where
  "after_finish_a =
     after_get_a
       \<lparr>server := Some ((named_server ''a'' 8000)
                          \<lparr>s_mapper := l_mapper (plain_listener 8000
                                          [(''/a'', [(''get'', Function ''handle'' ''ping'')])]),
                           s_route := Some \<lparr>r_pattern = ''/a'',
                                             r_method = [(''get'', Function ''handle'' ''ping'')]\<rparr>\<rparr>),
        data := ''b'',
        effects := [AddServer (plain_listener 8000
                                 [(''/a'', [(''get'', Function ''handle'' ''ping'')])])]\<rparr>"

section \<open>Properties of the lexing step\<close>

lemma py_split1_no_sep: "sep \<notin> set s \<Longrightarrow> py_split1 sep s = [s]"
  by (simp add: py_split1_def)

lemma takeWhile_first_sep:
  "sep \<notin> set a \<Longrightarrow> takeWhile (\<lambda>c. c \<noteq> sep) (a @ sep # b) = a"
  by (induction a) auto

lemma dropWhile_first_sep:
  "sep \<notin> set a \<Longrightarrow> dropWhile (\<lambda>c. c \<noteq> sep) (a @ sep # b) = sep # b"
  by (induction a) auto

lemma py_split1_sep:
  "sep \<notin> set a \<Longrightarrow> py_split1 sep (a @ sep # b) = [a, b]"
  by (simp add: py_split1_def takeWhile_first_sep dropWhile_first_sep)

lemma split_at_first:
  assumes "sep \<in> set s"
  shows "\<exists>a b. s = a @ sep # b \<and> sep \<notin> set a"
  using assms by (metis split_list_first)

text \<open>
  C6 (as the code has it). The stripped text before the first \<open>#\<close> is cut at its first
  space character only: the name is the lower-cased text before that space, the data is
  everything after it, further spaces included. A stripped text with no space character
  in it (one token, or tokens separated by tabs) is not an event with an empty value:
  the unpacking fails and the ValueError is raised again.
\<close>

theorem lex_line_first_space:
  assumes strip: "py_strip (hd (py_split1 (CHR ''#'') l)) = s" and ne: "s \<noteq> []"
  shows "(CHR '' '' \<notin> set s \<longrightarrow> lex_line l = Inl ValueError) \<and>
         (CHR '' '' \<in> set s \<longrightarrow>
            (\<exists>n v. s = n @ CHR '' '' # v \<and> CHR '' '' \<notin> set n \<and>
                   lex_line l = Inr (Some (py_lower n, v))))"
proof (intro conjI impI)
  assume "CHR '' '' \<notin> set s"
  then have "py_split1 (CHR '' '') s = [s]"
    by (rule py_split1_no_sep)
  then show "lex_line l = Inl ValueError"
    using ne by (simp add: lex_line_def strip)
next
  assume sp: "CHR '' '' \<in> set s"
  obtain n v where nv: "s = n @ CHR '' '' # v" "CHR '' '' \<notin> set n"
    using split_at_first [OF sp] by (elim exE conjE)
  then have "py_split1 (CHR '' '') s = [n, v]"
    by (simp add: py_split1_sep)
  then have "lex_line l = Inr (Some (py_lower n, v))"
    using ne by (simp add: lex_line_def strip)
  with nv show "\<exists>n v. s = n @ CHR '' '' # v \<and> CHR '' '' \<notin> set n \<and>
                   lex_line l = Inr (Some (py_lower n, v))"
    by blast
qed

theorem lex_line_first_space_witness:
  "py_strip (hd (py_split1 (CHR ''#'') ''  Route  /ping? # health'')) = ''Route  /ping?'' \<and>
   ''Route  /ping?'' \<noteq> [] \<and> CHR '' '' \<in> set ''Route  /ping?'' \<and>
   (\<exists>n v. ''Route  /ping?'' = n @ CHR '' '' # v \<and> CHR '' '' \<notin> set n \<and>
      lex_line ''  Route  /ping? # health'' = Inr (Some (py_lower n, v)))"
proof -
  have a: "py_strip (hd (py_split1 (CHR ''#'') ''  Route  /ping? # health'')) = ''Route  /ping?''"
    by code_simp
  have b: "''Route  /ping?'' \<noteq> []"
    by simp
  have c: "CHR '' '' \<in> set ''Route  /ping?''"
    by simp
  from lex_line_first_space [OF a b] c a b show ?thesis
    by blast
qed

text \<open>
  C6 as the specification states it fails on a line that holds one token: no event
  with an empty value is produced, the lexing step raises. And the data of a line
  whose name is followed by two spaces starts with the second space: the cut is at
  one space character, not at a run of whitespace.
\<close>

theorem lex_line_one_token_counterexample:
  "lex_line ''DONE'' = Inl ValueError \<and>
   lex_line ''GET  handle.ping'' = Inr (Some (''get'', '' handle.ping''))"
  by code_simp

section \<open>Properties of CONFIG\_SERVER\<close>









section \<open>Properties of the loader\<close>









text \<open>A file that imports itself under another spelling of its path is never found in
  \<^verbatim>\<open>files\<close>: every call reads it again under a longer name, until the interpreter allows
  no deeper call.\<close>

lemma import_alias_runtime_error:
  "load_micro alias_world ''micro'' = Inl RuntimeError"
  by code_simp

text \<open>
  C2 on the code. A micro file that imports the file \<open>b\<close> twice, with no cycle anywhere:
  the second IMPORT finds \<open>b\<close> in \<^verbatim>\<open>files\<close>, where the first one left it, and the loader
  raises the error of a recursive import. The lines of \<open>b\<close> are not expanded twice.
\<close>

theorem import_twice_fails:
  "load_micro twice_world ''micro'' = Inl (RecursiveImport ''b'')"
  by code_simp

section \<open>Properties of the finite state machine\<close>

lemma run_events_append:
  "run_events w m (xs @ ys) =
     (case run_events w m xs of
        (None, m') \<Rightarrow> run_events w m' ys
      | (Some e, m') \<Rightarrow> (Some e, m'))"
  by (induction xs arbitrary: m) (auto split: prod.splits option.splits)

lemma override_loads_append [simp]:
  "override_loads (xs @ ys) = override_loads xs + override_loads ys"
  by (simp add: override_loads_def)

lemma override_loads_simps [simp]:
  "override_loads [] = 0"
  "override_loads [LoadOverride] = 1"
  "override_loads [CallSetup f c] = 0"
  "override_loads [AddServer l] = 0"
  by (simp_all add: override_loads_def)

lemma config_branches_frame:
  assumes "config_branches w m ev = (r, m')"
  shows "state m' = state m \<and> effects m' = effects m \<and> ports m' = ports m \<and> server m' = server m"
  using assms by (auto simp: config_branches_def split: if_splits sum.splits prod.splits)

lemma open_server_frame:
  assumes "open_server w m = (r, m')"
  shows "effects m' = effects m \<and> config m' = config m \<and>
         (r = None \<longrightarrow> state m' = ServerOpen) \<and> (r \<noteq> None \<longrightarrow> state m' = state m)"
  using assms by (auto simp: open_server_def split: option.splits sum.splits)

lemma open_port_frame:
  assumes "open_port w m = (r, m')"
  shows "effects m' = effects m \<and> config m' = config m \<and> ports m' = ports m \<and>
         (r = None \<longrightarrow> state m' = ServerOpen) \<and> (r \<noteq> None \<longrightarrow> state m' = state m)"
  using assms by (auto simp: open_port_def split: option.splits sum.splits)

lemma finish_server_frame:
  assumes "finish_server w m = (r, m')"
  shows "state m' = state m \<and> config m' = config m \<and> ports m' = ports m \<and>
         override_loads (effects m') = override_loads (effects m)"
  using assms
  by (auto simp: finish_server_def Server_done_def Let_def split: option.splits if_splits)

lemma state_init_frame:
  assumes "state_init w m ev = (r, m')" and "\<not> is_config_event ev"
  shows "override_loads (effects m') = override_loads (effects m) \<and>
         (state m' = state m \<or> (r = None \<and> (state m' = ServerOpen \<or> state m' = Done)))"
proof -
  consider "ev = ''setup''" | "ev = ''teardown''" | "ev = ''server''" | "ev = ''port''"
    | "ev = ''done''"
    | "ev \<notin> set [''setup'', ''teardown'', ''server'', ''port'', ''done'']"
    by auto
  then show ?thesis
  proof cases
    case 1
    with assms show ?thesis
      by (auto simp: state_init_def Let_def split: sum.splits)
  next
    case 2
    with assms show ?thesis
      by (auto simp: state_init_def is_config_event_def split: sum.splits)
  next
    case 3
    with assms open_server_frame [of w m r m'] show ?thesis
      by (cases r) (auto simp: state_init_def is_config_event_def)
  next
    case 4
    with assms open_port_frame [of w m r m'] show ?thesis
      by (cases r) (auto simp: state_init_def is_config_event_def)
  next
    case 5
    with assms show ?thesis
      by (auto simp: state_init_def is_config_event_def)
  next
    case 6
    with assms show ?thesis
      by (auto simp: state_init_def)
  qed
qed


lemma state_server_frame:
  assumes "state_server w m ev = (r, m')"
  shows "override_loads (effects m') = override_loads (effects m) \<and>
         (r = None \<longrightarrow> \<not> is_config_event ev \<and> (state m' = RouteOpen \<or> state m' = Done)) \<and>
         (r \<noteq> None \<longrightarrow> state m' = state m) \<and>
         (is_config_event ev \<longrightarrow> r = Some (InvalidRecord ev))"
proof -
  consider "ev = ''route''" | "ev = ''done''" | "ev \<noteq> ''route'' \<and> ev \<noteq> ''done''"
    by auto
  then show ?thesis
  proof cases
    case 1
    with assms show ?thesis
      by (auto simp: state_server_def is_config_event_def split: option.splits)
  next
    case 2
    obtain r1 m1 where f: "finish_server w m = (r1, m1)" by (cases "finish_server w m")
    from 2 assms f finish_server_frame [OF f] show ?thesis
      by (cases r1) (auto simp: state_server_def is_config_event_def)
  next
    case 3
    with assms show ?thesis
      by (auto simp: state_server_def)
  qed
qed

lemma state_route_frame:
  assumes "state_route w m ev = (r, m')"
  shows "override_loads (effects m') = override_loads (effects m) \<and>
         (r = None \<longrightarrow> \<not> is_config_event ev \<and>
            (state m' = state m \<or> state m' = ServerOpen \<or> state m' = Done)) \<and>
         (r \<noteq> None \<longrightarrow> state m' = state m) \<and>
         (is_config_event ev \<longrightarrow> r = Some (InvalidRecord ev))"
proof -
  obtain r1 m1 where f: "finish_server w m = (r1, m1)" by (cases "finish_server w m")
  note ff = finish_server_frame [OF f]
  consider "ev \<in> set [''get'', ''post'', ''put'', ''delete'']" | "ev = ''route''"
    | "ev = ''server''" | "ev = ''port''" | "ev = ''done''"
    | "ev \<notin> set [''get'', ''post'', ''put'', ''delete'', ''route'', ''server'', ''port'', ''done'']"
    by auto
  then show ?thesis
  proof cases
    case 1
    with assms show ?thesis
      by (auto simp: state_route_def is_config_event_def split: option.splits sum.splits)
  next
    case 2
    with assms show ?thesis
      by (auto simp: state_route_def is_config_event_def split: option.splits)
  next
    case 3
    show ?thesis
    proof (cases r1)
      case None
      with 3 assms f have "open_server w m1 = (r, m')"
        by (simp add: state_route_def)
      from open_server_frame [OF this] ff 3 show ?thesis
        by (cases r) (auto simp: is_config_event_def)
    next
      case (Some e)
      with 3 assms f ff show ?thesis
        by (auto simp: state_route_def is_config_event_def)
    qed
  next
    case 4
    show ?thesis
    proof (cases r1)
      case None
      with 4 assms f have "open_port w m1 = (r, m')"
        by (simp add: state_route_def)
      from open_port_frame [OF this] ff 4 show ?thesis
        by (cases r) (auto simp: is_config_event_def)
    next
      case (Some e)
      with 4 assms f ff show ?thesis
        by (auto simp: state_route_def is_config_event_def)
    qed
  next
    case 5
    with assms f ff show ?thesis
      by (cases r1) (auto simp: state_route_def is_config_event_def)
  next
    case 6
    with assms show ?thesis
      by (auto simp: state_route_def)
  qed
qed

lemma state_config_frame:
  assumes "state_config w m ev = (r, m')" and "\<not> is_config_event ev" and "state m = Config"
  shows "override_loads (effects m') =
           override_loads (effects m) + (if config_exists w then 1 else 0) \<and>
         (r = None \<longrightarrow> state m' \<noteq> Config)"
proof (cases "config_exists w")
  case False
  with assms have "state_init w (m\<lparr>state := Init\<rparr>) ev = (r, m')"
    by (simp add: state_config_def)
  from state_init_frame [OF this assms(2)] False show ?thesis by auto
next
  case True
  show ?thesis
  proof (cases "cfg_load w (config m)")
    case (Inl e)
    with True assms show ?thesis
      by (auto simp: state_config_def)
  next
    case (Inr cfg)
    with True assms
    have "state_init w (m\<lparr>config := cfg, effects := effects m @ [LoadOverride], state := Init\<rparr>) ev
            = (r, m')"
      by (simp add: state_config_def)
    from state_init_frame [OF this assms(2)] True show ?thesis by auto
  qed
qed


lemma handle_loads:
  assumes "handle w m ev = (r, m')"
  shows "override_loads (effects m') =
           override_loads (effects m) +
           (if state m = Config \<and> \<not> is_config_event (e_name ev) \<and> config_exists w then 1 else 0)"
proof -
  let ?m = "m\<lparr>data := (case e_data ev of None \<Rightarrow> [] | Some v \<Rightarrow> v)\<rparr>"
  obtain r0 where d: "dispatch w ?m (e_name ev) = (r0, m')"
    using assms by (auto simp: handle_def split: prod.splits option.splits)
  show ?thesis
  proof (cases "state m")
    case Init
    with d have s: "state_init w ?m (e_name ev) = (r0, m')" by (simp add: dispatch_def)
    show ?thesis
    proof (cases "is_config_event (e_name ev)")
      case True
      with s config_branches_frame [of w "?m\<lparr>state := Config\<rparr>" "e_name ev" r0 m'] Init
      show ?thesis by (simp add: state_init_def)
    next
      case False
      from state_init_frame [OF s False] Init show ?thesis by simp
    qed
  next
    case Config
    with d have s: "state_config w ?m (e_name ev) = (r0, m')" by (simp add: dispatch_def)
    show ?thesis
    proof (cases "is_config_event (e_name ev)")
      case True
      with s config_branches_frame [of w ?m "e_name ev" r0 m'] Config
      show ?thesis by (simp add: state_config_def)
    next
      case False
      from state_config_frame [OF s False] Config False show ?thesis by simp
    qed
  next
    case ServerOpen
    with d have "state_server w ?m (e_name ev) = (r0, m')" by (simp add: dispatch_def)
    from state_server_frame [OF this] ServerOpen show ?thesis by simp
  next
    case RouteOpen
    with d have "state_route w ?m (e_name ev) = (r0, m')" by (simp add: dispatch_def)
    from state_route_frame [OF this] RouteOpen show ?thesis by simp
  next
    case Done
    with d show ?thesis by (auto simp: dispatch_def state_done_def)
  qed
qed

lemma handle_state:
  assumes "handle w m ev = (None, m')"
  shows "(state m' = Config) = is_config_event (e_name ev)"
    and "past_init m \<Longrightarrow> past_init m'"
    and "state m' = Init \<or> state m' = Config \<or> past_init m'"
    and "past_init m \<or> state m = Init \<or> state m = Config"
proof -
  let ?m = "m\<lparr>data := (case e_data ev of None \<Rightarrow> [] | Some v \<Rightarrow> v)\<rparr>"
  have d: "dispatch w ?m (e_name ev) = (None, m')"
    using assms by (auto simp: handle_def split: prod.splits option.splits)
  have "(state m' = Config) = is_config_event (e_name ev) \<and> (past_init m \<longrightarrow> past_init m')"
  proof (cases "state m")
    case Init
    with d have s: "state_init w ?m (e_name ev) = (None, m')" by (simp add: dispatch_def)
    show ?thesis
    proof (cases "is_config_event (e_name ev)")
      case True
      with s config_branches_frame [of w "?m\<lparr>state := Config\<rparr>" "e_name ev" None m'] Init
      show ?thesis by (simp add: state_init_def past_init_def)
    next
      case False
      from state_init_frame [OF s False] Init False show ?thesis
        by (auto simp: past_init_def)
    qed
  next
    case Config
    with d have s: "state_config w ?m (e_name ev) = (None, m')" by (simp add: dispatch_def)
    show ?thesis
    proof (cases "is_config_event (e_name ev)")
      case True
      with s config_branches_frame [of w ?m "e_name ev" None m'] Config
      show ?thesis by (simp add: state_config_def past_init_def)
    next
      case False
      from state_config_frame [OF s False] Config False show ?thesis
        by (simp add: past_init_def)
    qed
  next
    case ServerOpen
    with d have "state_server w ?m (e_name ev) = (None, m')" by (simp add: dispatch_def)
    from state_server_frame [OF this] ServerOpen show ?thesis
      by (auto simp: past_init_def)
  next
    case RouteOpen
    with d have "state_route w ?m (e_name ev) = (None, m')" by (simp add: dispatch_def)
    from state_route_frame [OF this] RouteOpen show ?thesis
      by (auto simp: past_init_def)
  next
    case Done
    with d show ?thesis by (simp add: dispatch_def state_done_def)
  qed
  then show "(state m' = Config) = is_config_event (e_name ev)"
    and "past_init m \<Longrightarrow> past_init m'" by simp_all
  show "state m' = Init \<or> state m' = Config \<or> past_init m'"
    by (cases "state m'") (simp_all add: past_init_def)
  show "past_init m \<or> state m = Init \<or> state m = Config"
    by (cases "state m") (simp_all add: past_init_def)
qed

lemma parse_lines_success:
  "parse_lines w co m lines seen = (None, m', seen') \<Longrightarrow>
   run_events w m (dispatched co lines) = (None, m') \<and>
   seen' = (if lines = [] then seen else Some (fst (last lines), fst (snd (last lines))))"
proof (induction lines arbitrary: m seen)
  case Nil
  then show ?case by simp
next
  case (Cons x rest)
  obtain fname lnum l where x: "x = (fname, lnum, l)" by (cases x)
  show ?case
  proof (cases "lex_line l")
    case (Inl e)
    with Cons.prems x show ?thesis by simp
  next
    case (Inr t)
    show ?thesis
    proof (cases t)
      case None
      with Inr Cons.prems x
      have "parse_lines w co m rest (Some (fname, lnum)) = (None, m', seen')" by simp
      from Cons.IH [OF this] Inr None x show ?thesis by simp
    next
      case (Some nv)
      obtain n v where nv: "nv = (n, v)" by (cases nv)
      show ?thesis
      proof (cases "co \<and> \<not> is_config_event n")
        case True
        with Inr Some nv Cons.prems x
        have "parse_lines w co m rest (Some (fname, lnum)) = (None, m', seen')" by simp
        from Cons.IH [OF this] Inr Some nv True x show ?thesis by simp
      next
        case False
        let ?ev = "\<lparr>e_name = n, e_data = Some v, e_file = fname, e_line = lnum\<rparr>"
        obtain r1 m1 where h: "handle w m ?ev = (r1, m1)" by (cases "handle w m ?ev")
        with Inr Some nv False Cons.prems x have r1: "r1 = None"
          by (cases r1) auto
        with h Inr Some nv False Cons.prems x
        have "parse_lines w co m1 rest (Some (fname, lnum)) = (None, m', seen')"
          by auto
        from Cons.IH [OF this] h r1 Inr Some nv False x
        show ?thesis by auto
      qed
    qed
  qed
qed






section \<open>The override file\<close>

text \<open>How often the override file is applied by a run that does not fail: once for every
  directive that is not CONFIG or CONFIG\_SERVER and comes right after one that is.\<close>

lemma run_events_loads:
  "run_events w m evs = (None, m') \<Longrightarrow>
   override_loads (effects m') =
     override_loads (effects m) +
     (if config_exists w then config_exits (state m = Config) (map e_name evs) else 0)"
proof (induction evs arbitrary: m)
  case Nil
  then show ?case by simp
next
  case (Cons ev evs)
  obtain r1 m1 where h: "handle w m ev = (r1, m1)" by (cases "handle w m ev")
  with Cons.prems have r1: "r1 = None" by (cases r1) auto
  with h Cons.prems have run: "run_events w m1 evs = (None, m')" by simp
  from h r1 have h': "handle w m ev = (None, m1)" by simp
  note l = handle_loads [OF h] and s = handle_state(1) [OF h'] and ih = Cons.IH [OF run]
  show ?case
  proof (cases "is_config_event (e_name ev)")
    case True
    with l s ih show ?thesis by simp
  next
    case False
    with l s ih show ?thesis by simp
  qed
qed

lemma run_events_prefix:
  "run_events w m evs = (None, m') \<Longrightarrow> \<exists>mk. run_events w m (take k evs) = (None, mk)"
proof -
  assume a: "run_events w m evs = (None, m')"
  have "evs = take k evs @ drop k evs" by simp
  with a have "run_events w m (take k evs @ drop k evs) = (None, m')" by simp
  then show ?thesis
    unfolding run_events_append by (auto split: prod.splits option.splits)
qed

lemma config_exits_all_config:
  "list_all is_config_event ns \<Longrightarrow> config_exits c (ns @ ms) = config_exits (c \<or> ns \<noteq> []) ms"
  by (induction ns arbitrary: c) auto

lemma config_exits_none_config:
  "list_all (\<lambda>n. \<not> is_config_event n) ns \<Longrightarrow>
   config_exits c ns = (if c \<and> ns \<noteq> [] then 1 else 0)"
  by (induction ns arbitrary: c) auto

lemma config_exits_take:
  assumes "list_all (\<lambda>ev. is_config_event (e_name ev)) cfgs"
    and "list_all (\<lambda>ev. \<not> is_config_event (e_name ev)) rest"
    and "rest \<noteq> []"
  shows "config_exits False (map e_name (take k (cfgs @ rest))) =
         (if cfgs \<noteq> [] \<and> length cfgs < k then 1 else 0)"
proof -
  have a: "list_all is_config_event (map e_name (take k cfgs))"
    using assms(1) by (auto simp: list_all_iff dest: in_set_takeD)
  have b: "list_all (\<lambda>n. \<not> is_config_event n) (map e_name (take (k - length cfgs) rest))"
    using assms(2) by (auto simp: list_all_iff dest: in_set_takeD)
  have "config_exits False (map e_name (take k (cfgs @ rest))) =
        config_exits False (map e_name (take k cfgs) @ map e_name (take (k - length cfgs) rest))"
    by simp
  also have "\<dots> = config_exits (take k cfgs \<noteq> []) (map e_name (take (k - length cfgs) rest))"
    using config_exits_all_config [OF a] by simp
  also have "\<dots> = (if take k cfgs \<noteq> [] \<and> take (k - length cfgs) rest \<noteq> [] then 1 else 0)"
    using config_exits_none_config [OF b] by simp
  also have "\<dots> = (if cfgs \<noteq> [] \<and> length cfgs < k then 1 else 0)"
    using assms(3) by auto
  finally show ?thesis .
qed

lemma config_exits_whole:
  assumes "list_all (\<lambda>ev. is_config_event (e_name ev)) cfgs"
    and "list_all (\<lambda>ev. \<not> is_config_event (e_name ev)) rest"
    and "rest \<noteq> []"
  shows "config_exits False (map e_name (cfgs @ rest)) = (if cfgs \<noteq> [] then 1 else 0)"
proof -
  have "config_exits False (map e_name (take (Suc (length cfgs)) (cfgs @ rest))) =
        config_exits False (map e_name (cfgs @ take 1 rest))"
    by simp
  have a: "list_all is_config_event (map e_name cfgs)"
    using assms(1) by (simp add: list_all_iff)
  have b: "list_all (\<lambda>n. \<not> is_config_event n) (map e_name rest)"
    using assms(2) by (simp add: list_all_iff)
  have "config_exits False (map e_name (cfgs @ rest)) =
        config_exits False (map e_name cfgs @ map e_name rest)"
    by simp
  also have "\<dots> = config_exits (cfgs \<noteq> []) (map e_name rest)"
    using config_exits_all_config [OF a] by simp
  also have "\<dots> = (if cfgs \<noteq> [] then 1 else 0)"
    using config_exits_none_config [OF b] assms(3) by simp
  finally show ?thesis .
qed

lemma run_from_init_loads:
  "run_events w FSM_init evs = (None, m') \<Longrightarrow>
   override_loads (effects m') =
     (if config_exists w then config_exits False (map e_name evs) else 0)"
  using run_events_loads [of w FSM_init evs m'] by (simp add: FSM_init_def)

lemma parse_loaded_events:
  assumes "parse_loaded w co lines = (Inr res, es)"
  shows "\<exists>m'. run_events w FSM_init (events_of co lines) = (None, m') \<and> effects m' = es"
proof -
  obtain r m seen where p: "parse_lines w co FSM_init lines None = (r, m, seen)"
    by (cases "parse_lines w co FSM_init lines None")
  with assms have r: "r = None"
    by (cases r) (auto simp: parse_loaded_def)
  with assms p obtain fname lnum where seen: "seen = Some (fname, lnum)"
    by (cases seen) (auto simp: parse_loaded_def)
  from parse_lines_success [of w co FSM_init lines None m seen] p r
  have run: "run_events w FSM_init (dispatched co lines) = (None, m)"
    and sn: "seen = (if lines = [] then None else Some (fst (last lines), fst (snd (last lines))))"
    by simp_all
  from sn seen have fin: "final_event lines =
      \<lparr>e_name = ''done'', e_data = None, e_file = fname, e_line = Suc lnum\<rparr>"
    by (auto simp: final_event_def split: if_splits)
  obtain r' m' where h: "handle w m (final_event lines) = (r', m')"
    by (cases "handle w m (final_event lines)")
  with assms p r seen fin have r': "r' = None"
    by (cases r') (auto simp: parse_loaded_def)
  with assms p r seen fin h have "effects m' = es"
    by (auto simp: parse_loaded_def split: if_splits)
  moreover have "run_events w FSM_init (events_of co lines) = (None, m')"
    using run h r' by (simp add: events_of_def run_events_append)
  ultimately show ?thesis by blast
qed

text \<open>
  C4. A file that \<^verbatim>\<open>parse\<close> processes without an error, and in which the CONFIG and
  CONFIG\_SERVER directives, \<open>cfgs\<close>, all come before all the other directives, \<open>rest\<close>
  (the final \<^verbatim>\<open>done\<close> is the last of these). After the first \<open>k\<close> directives the override file
  has been applied once if it exists, there is a CONFIG or CONFIG\_SERVER directive, and
  \<open>k\<close> is beyond the last of them; it has not been applied otherwise. So the directive
  that applies it is the first one after the block, and at the end of \<^verbatim>\<open>parse\<close> it has been
  applied once, or never when there is no override file or no CONFIG directive.
\<close>

theorem override_applied_once:
  assumes ok: "parse_loaded w co lines = (Inr res, es)"
    and split: "events_of co lines = cfgs @ rest"
    and cfgs: "list_all (\<lambda>ev. is_config_event (e_name ev)) cfgs"
    and rest: "list_all (\<lambda>ev. \<not> is_config_event (e_name ev)) rest"
  shows "(\<exists>mk. run_events w FSM_init (take k (events_of co lines)) = (None, mk) \<and>
            override_loads (effects mk) =
              (if config_exists w \<and> cfgs \<noteq> [] \<and> length cfgs < k then 1 else 0)) \<and>
         override_loads es = (if config_exists w \<and> cfgs \<noteq> [] then 1 else 0)"
proof -
  from parse_loaded_events [OF ok] obtain m' where
    run: "run_events w FSM_init (events_of co lines) = (None, m')" and es: "effects m' = es"
    by blast
  have ne: "rest \<noteq> []"
  proof
    assume "rest = []"
    with split have "last cfgs = final_event lines" "cfgs \<noteq> []"
      by (auto simp: events_of_def)
    with cfgs have "is_config_event (e_name (final_event lines))"
      by (metis last_in_set list_all_iff)
    then show False by (simp add: final_event_def is_config_event_def)
  qed
  from run_events_prefix [OF run, of k] obtain mk where
    runk: "run_events w FSM_init (take k (events_of co lines)) = (None, mk)" by blast
  have k: "override_loads (effects mk) =
          (if config_exists w \<and> cfgs \<noteq> [] \<and> length cfgs < k then 1 else 0)"
    unfolding run_from_init_loads [OF runk] split config_exits_take [OF cfgs rest ne] by simp
  have "override_loads (effects m') = (if config_exists w \<and> cfgs \<noteq> [] then 1 else 0)"
    unfolding run_from_init_loads [OF run] split config_exits_whole [OF cfgs rest ne] by simp
  with runk k es show ?thesis by blast
qed

theorem override_applied_once_witness:
  "parse_loaded override_world False
     [(''micro'', 1, ''CONFIG a default=1''), (''micro'', 2, ''TEARDOWN handle.teardown''),
      (''micro'', 3, ''PORT 12345'')] =
     (Inr (Control (PInt 100) (PInt 100) (Some (Function ''handle'' ''teardown''))),
      [LoadOverride, AddServer (plain_listener 12345 [])]) \<and>
   events_of False
     [(''micro'', 1, ''CONFIG a default=1''), (''micro'', 2, ''TEARDOWN handle.teardown''),
      (''micro'', 3, ''PORT 12345'')] =
     [\<lparr>e_name = ''config'', e_data = Some ''a default=1'', e_file = ''micro'', e_line = 1\<rparr>] @
     [\<lparr>e_name = ''teardown'', e_data = Some ''handle.teardown'', e_file = ''micro'', e_line = 2\<rparr>,
      \<lparr>e_name = ''port'', e_data = Some ''12345'', e_file = ''micro'', e_line = 3\<rparr>,
      \<lparr>e_name = ''done'', e_data = None, e_file = ''micro'', e_line = 4\<rparr>] \<and>
   list_all (\<lambda>ev. is_config_event (e_name ev))
     [\<lparr>e_name = ''config'', e_data = Some ''a default=1'', e_file = ''micro'', e_line = 1\<rparr>] \<and>
   list_all (\<lambda>ev. \<not> is_config_event (e_name ev))
     [\<lparr>e_name = ''teardown'', e_data = Some ''handle.teardown'', e_file = ''micro'', e_line = 2\<rparr>,
      \<lparr>e_name = ''port'', e_data = Some ''12345'', e_file = ''micro'', e_line = 3\<rparr>,
      \<lparr>e_name = ''done'', e_data = None, e_file = ''micro'', e_line = 4\<rparr>] \<and>
   config_exists override_world \<and>
   (\<exists>mk. run_events override_world FSM_init
            (take 1 (events_of False
               [(''micro'', 1, ''CONFIG a default=1''), (''micro'', 2, ''TEARDOWN handle.teardown''),
                (''micro'', 3, ''PORT 12345'')])) = (None, mk) \<and>
         override_loads (effects mk) = 0) \<and>
   (\<exists>mk. run_events override_world FSM_init
            (take 2 (events_of False
               [(''micro'', 1, ''CONFIG a default=1''), (''micro'', 2, ''TEARDOWN handle.teardown''),
                (''micro'', 3, ''PORT 12345'')])) = (None, mk) \<and>
         override_loads (effects mk) = 1) \<and>
   override_loads [LoadOverride, AddServer (plain_listener 12345 [])] = 1"
proof -
  let ?lines = "[(''micro'', 1, ''CONFIG a default=1''), (''micro'', 2, ''TEARDOWN handle.teardown''),
      (''micro'', 3, ''PORT 12345'')]"
  let ?cfgs = "[\<lparr>e_name = ''config'', e_data = Some ''a default=1'', e_file = ''micro'', e_line = 1\<rparr>]"
  let ?rest = "[\<lparr>e_name = ''teardown'', e_data = Some ''handle.teardown'', e_file = ''micro'', e_line = 2\<rparr>,
      \<lparr>e_name = ''port'', e_data = Some ''12345'', e_file = ''micro'', e_line = 3\<rparr>,
      \<lparr>e_name = ''done'', e_data = None, e_file = ''micro'', e_line = (4::nat)\<rparr>]"
  have ok: "parse_loaded override_world False ?lines =
     (Inr (Control (PInt 100) (PInt 100) (Some (Function ''handle'' ''teardown''))),
      [LoadOverride, AddServer (plain_listener 12345 [])])"
    by code_simp
  have sp: "events_of False ?lines = ?cfgs @ ?rest"
    by code_simp
  have c: "list_all (\<lambda>ev. is_config_event (e_name ev)) ?cfgs"
    by (simp add: is_config_event_def)
  have r: "list_all (\<lambda>ev. \<not> is_config_event (e_name ev)) ?rest"
    by (simp add: is_config_event_def)
  have ex: "config_exists override_world"
    by (simp add: override_world_def)
  from override_applied_once [OF ok sp c r, of 1] override_applied_once [OF ok sp c r, of 2]
    ok sp c r ex
  show ?thesis by simp
qed

text \<open>
  C4 as it is stated fails on the code. In the first run a TEARDOWN directive stands
  between two CONFIG directives, and the override file is applied twice, once after each
  of them. In the second run there is no CONFIG directive, and the override file, which
  exists, is not applied at all.
\<close>

theorem override_applied_twice_counterexample:
  "config_exists override_world \<and>
   parse_loaded override_world False
     [(''micro'', 1, ''CONFIG a default=1''), (''micro'', 2, ''TEARDOWN handle.teardown''),
      (''micro'', 3, ''CONFIG name default=x''), (''micro'', 4, ''PORT 12345'')] =
     (Inr (Control (PInt 100) (PInt 100) (Some (Function ''handle'' ''teardown''))),
      [LoadOverride, LoadOverride, AddServer (plain_listener 12345 [])]) \<and>
   parse_loaded override_world False [(''micro'', 1, ''PORT 12345'')] =
     (Inr (Control (PInt 100) (PInt 100) None), [AddServer (plain_listener 12345 [])])"
  by code_simp

section \<open>Files without CONFIG directives\<close>

text \<open>No function of the launcher other than \<open>state_config\<close> looks at the override file:
  a world with another override file, or none, gives the same results.\<close>

lemma override_frame_validator:
  "apply_validator (w\<lparr>config_exists := b, cfg_load := L\<rparr>) vf v = apply_validator w vf v"
  by (cases vf) (simp_all cong: list.case_cong sum.case_cong option.case_cong pyval.case_cong prod.case_cong if_cong)

lemma override_frame_config:
  "config_directive (w\<lparr>config_exists := b, cfg_load := L\<rparr>) cfg line = config_directive w cfg line"
  by (simp add: config_directive_def apply_default_def Let_def override_frame_validator
        cong: list.case_cong sum.case_cong option.case_cong pyval.case_cong prod.case_cong if_cong)

lemma override_frame_import:
  "import_function (w\<lparr>config_exists := b, cfg_load := L\<rparr>) p = import_function w p"
  "import_handler (w\<lparr>config_exists := b, cfg_load := L\<rparr>) v = import_handler w v"
  by (simp_all add: import_function_def import_handler_def import_module_def
        cong: list.case_cong sum.case_cong option.case_cong pyval.case_cong prod.case_cong if_cong)

lemma override_frame_getattr:
  "py_getattr (w\<lparr>config_exists := b, cfg_load := L\<rparr>) cfg obj a = py_getattr w cfg obj a"
  by (simp add: py_getattr_def cong: list.case_cong sum.case_cong option.case_cong pyval.case_cong prod.case_cong if_cong)

lemma override_frame_server:
  "Server_init (w\<lparr>config_exists := b, cfg_load := L\<rparr>) cfg name obj = Server_init w cfg name obj"
  "add_method (w\<lparr>config_exists := b, cfg_load := L\<rparr>) srv meth path = add_method w srv meth path"
  "Server_done (w\<lparr>config_exists := b, cfg_load := L\<rparr>) srv es = Server_done w srv es"
  by (simp_all add: Server_init_def add_method_def Server_done_def attr_or_def server_ssl_def
        override_frame_getattr override_frame_import Let_def
        cong: list.case_cong sum.case_cong option.case_cong pyval.case_cong prod.case_cong if_cong)

lemma override_frame_open:
  "config_branches (w\<lparr>config_exists := b, cfg_load := L\<rparr>) m ev = config_branches w m ev"
  "open_server (w\<lparr>config_exists := b, cfg_load := L\<rparr>) m = open_server w m"
  "open_port (w\<lparr>config_exists := b, cfg_load := L\<rparr>) m = open_port w m"
  "finish_server (w\<lparr>config_exists := b, cfg_load := L\<rparr>) m = finish_server w m"
  "control_of (w\<lparr>config_exists := b, cfg_load := L\<rparr>) m = control_of w m"
  by (simp_all add: config_branches_def open_server_def open_port_def finish_server_def
        control_of_def override_frame_config override_frame_server override_frame_getattr
        cong: list.case_cong sum.case_cong option.case_cong pyval.case_cong prod.case_cong if_cong)

lemma override_frame_states:
  "state_init (w\<lparr>config_exists := b, cfg_load := L\<rparr>) m ev = state_init w m ev"
  "state_server (w\<lparr>config_exists := b, cfg_load := L\<rparr>) m ev = state_server w m ev"
  "state_route (w\<lparr>config_exists := b, cfg_load := L\<rparr>) m ev = state_route w m ev"
  "state_done (w\<lparr>config_exists := b, cfg_load := L\<rparr>) m ev = state_done w m ev"
  by (simp_all add: state_init_def state_server_def state_route_def state_done_def
        override_frame_open override_frame_server override_frame_import Let_def
        cong: list.case_cong sum.case_cong option.case_cong pyval.case_cong prod.case_cong if_cong)

lemma override_frame_handle:
  "state m \<noteq> Config \<Longrightarrow>
   handle (w\<lparr>config_exists := b, cfg_load := L\<rparr>) m ev = handle w m ev"
  by (cases "state m") (simp_all add: handle_def dispatch_def override_frame_states)

lemma parse_lines_no_config:
  assumes "list_all not_config_line lines" and "state m \<noteq> Config"
  shows "parse_lines (w\<lparr>config_exists := b, cfg_load := L\<rparr>) co m lines seen =
           parse_lines w co m lines seen \<and>
         override_loads (effects (fst (snd (parse_lines w co m lines seen)))) =
           override_loads (effects m) \<and>
         (fst (parse_lines w co m lines seen) = None \<longrightarrow>
            state (fst (snd (parse_lines w co m lines seen))) \<noteq> Config)"
  using assms
proof (induction lines arbitrary: m seen)
  case Nil
  then show ?case by simp
next
  case (Cons x rest)
  obtain fname lnum l where x: "x = (fname, lnum, l)" by (cases x)
  from Cons.prems(1) have rest: "list_all not_config_line rest" by simp
  note ih = Cons.IH [OF rest]
  show ?case
  proof (cases "lex_line l")
    case (Inl e)
    with x show ?thesis by simp
  next
    case (Inr t)
    show ?thesis
    proof (cases t)
      case None
      with Inr x ih [OF Cons.prems(2)] show ?thesis by simp
    next
      case (Some nv)
      obtain n v where nv: "nv = (n, v)" by (cases nv)
      from Cons.prems(1) x Inr Some nv have nc: "\<not> is_config_event n"
        by (simp add: not_config_line_def)
      show ?thesis
      proof (cases co)
        case True
        with Inr Some nv nc x ih [OF Cons.prems(2)] show ?thesis by simp
      next
        case False
        let ?ev = "\<lparr>e_name = n, e_data = Some v, e_file = fname, e_line = lnum\<rparr>"
        obtain r1 m1 where h: "handle w m ?ev = (r1, m1)" by (cases "handle w m ?ev")
        have h': "handle (w\<lparr>config_exists := b, cfg_load := L\<rparr>) m ?ev = (r1, m1)"
          using override_frame_handle [OF Cons.prems(2)] h by simp
        from handle_loads [OF h] Cons.prems(2)
        have l1: "override_loads (effects m1) = override_loads (effects m)" by simp
        show ?thesis
        proof (cases r1)
          case None
          with h have "handle w m ?ev = (None, m1)" by simp
          from handle_state(1) [OF this] nc have s1: "state m1 \<noteq> Config" by simp
          from ih [OF s1] h h' None Inr Some nv False x l1 show ?thesis by simp
        next
          case (Some e)
          with h h' Inr \<open>t = Some nv\<close> nv False x l1 show ?thesis by simp
        qed
      qed
    qed
  qed
qed

lemma override_loads_zero: "override_loads es = 0 \<longleftrightarrow> LoadOverride \<notin> set es"
  by (induction es) (auto simp: override_loads_def)

lemma parse_loaded_no_config:
  assumes "list_all not_config_line lines"
  shows "parse_loaded (w\<lparr>config_exists := b, cfg_load := L\<rparr>) co lines = parse_loaded w co lines \<and>
         LoadOverride \<notin> set (snd (parse_loaded w co lines))"
proof -
  have init: "state FSM_init \<noteq> Config" "override_loads (effects FSM_init) = 0"
    by (simp_all add: FSM_init_def)
  obtain r m seen where p: "parse_lines w co FSM_init lines None = (r, m, seen)"
    by (cases "parse_lines w co FSM_init lines None")
  from parse_lines_no_config [OF assms init(1), where w = w and b = b and L = L and co = co and seen = None]
    p init(2)
  have p': "parse_lines (w\<lparr>config_exists := b, cfg_load := L\<rparr>) co FSM_init lines None = (r, m, seen)"
    and lm: "override_loads (effects m) = 0"
    and sm: "r = None \<Longrightarrow> state m \<noteq> Config"
    by simp_all
  show ?thesis
  proof (cases r)
    case (Some e)
    with p p' lm show ?thesis
      by (simp add: parse_loaded_def override_loads_zero)
  next
    case None
    show ?thesis
    proof (cases seen)
      case n: None
      with None p p' lm show ?thesis
        by (simp add: parse_loaded_def override_loads_zero)
    next
      case (Some fl)
      obtain fname lnum where fl: "fl = (fname, lnum)" by (cases fl)
      let ?ev = "\<lparr>e_name = ''done'', e_data = None, e_file = fname, e_line = Suc lnum\<rparr>"
      obtain r1 m1 where h: "handle w m ?ev = (r1, m1)" by (cases "handle w m ?ev")
      have h': "handle (w\<lparr>config_exists := b, cfg_load := L\<rparr>) m ?ev = (r1, m1)"
        using override_frame_handle [OF sm [OF None]] h by simp
      from handle_loads [OF h] sm [OF None] lm
      have "override_loads (effects m1) = 0" by simp
      then have "LoadOverride \<notin> set (effects m1)"
        by (simp add: override_loads_zero)
      with None Some fl p p' h h' show ?thesis
        by (cases r1) (simp_all add: parse_loaded_def override_frame_open)
    qed
  qed
qed

lemma override_frame_target:
  "import_target (w\<lparr>config_exists := b, cfg_load := L\<rparr>) dir_path ll = import_target w dir_path ll"
  by (simp add: import_target_def Let_def cong: option.case_cong if_cong)

lemma override_frame_load:
  "load_file d (w\<lparr>config_exists := b, cfg_load := L\<rparr>) fname fs lines = load_file d w fname fs lines"
  "load_lines d (w\<lparr>config_exists := b, cfg_load := L\<rparr>) fname dir_path n ls fs lines =
     load_lines d w fname dir_path n ls fs lines"
proof (induction d w fname fs lines and d w fname dir_path n ls fs lines
       rule: load_file_load_lines.induct)
  case (1 w fname fs lines)
  then show ?case by simp
next
  case (2 d w fname fs lines)
  then show ?case by (simp split: option.splits)
next
  case (3 d w fname dir_path n fs lines)
  then show ?case by simp
next
  case (4 d w fname dir_path n l ls fs lines)
  then show ?case
    by (simp add: override_frame_target split: sum.splits prod.splits)
qed

lemma handle_stays_out:
  assumes "handle w m ev = (r, m')" and "state m \<noteq> Config" and "\<not> is_config_event (e_name ev)"
  shows "state m' \<noteq> Config"
proof -
  let ?m = "m\<lparr>data := (case e_data ev of None \<Rightarrow> [] | Some v \<Rightarrow> v)\<rparr>"
  obtain r0 where d: "dispatch w ?m (e_name ev) = (r0, m')"
    using assms(1) by (auto simp: handle_def split: prod.splits option.splits)
  show ?thesis
  proof (cases "state m")
    case Init
    with d have "state_init w ?m (e_name ev) = (r0, m')" by (simp add: dispatch_def)
    from state_init_frame [OF this assms(3)] Init show ?thesis by auto
  next
    case Config
    with assms(2) show ?thesis by simp
  next
    case ServerOpen
    with d have "state_server w ?m (e_name ev) = (r0, m')" by (simp add: dispatch_def)
    from state_server_frame [OF this] ServerOpen show ?thesis by (cases r0) auto
  next
    case RouteOpen
    with d have "state_route w ?m (e_name ev) = (r0, m')" by (simp add: dispatch_def)
    from state_route_frame [OF this] RouteOpen show ?thesis by (cases r0) auto
  next
    case Done
    with d show ?thesis by (auto simp: dispatch_def state_done_def)
  qed
qed

lemma run_stays_out:
  "state m \<noteq> Config \<Longrightarrow> list_all (\<lambda>ev. \<not> is_config_event (e_name ev)) evs \<Longrightarrow>
   state (snd (run_events w m evs)) \<noteq> Config"
proof (induction evs arbitrary: m)
  case Nil
  then show ?case by simp
next
  case (Cons ev evs)
  obtain r1 m1 where h: "handle w m ev = (r1, m1)" by (cases "handle w m ev")
  from handle_stays_out [OF h Cons.prems(1)] Cons.prems(2) have s1: "state m1 \<noteq> Config" by simp
  from Cons.IH [OF s1] Cons.prems(2) h s1 show ?case by (cases r1) simp_all
qed

lemma dispatched_no_config:
  "list_all not_config_line lines \<Longrightarrow>
   list_all (\<lambda>ev. \<not> is_config_event (e_name ev)) (dispatched co lines)"
proof (induction lines)
  case Nil
  then show ?case by simp
next
  case (Cons x rest)
  obtain fname lnum l where x: "x = (fname, lnum, l)" by (cases x)
  with Cons show ?case
    by (auto simp: not_config_line_def split: sum.splits option.splits)
qed

text \<open>
  C10. When no line of the file that is loaded, or of the files it imports, is a CONFIG
  or CONFIG\_SERVER directive, \<^verbatim>\<open>parse\<close> does not apply the override file: its result and
  what it does to the world are the same whether the override file exists or not and
  whatever loading it would do to the namespace; the override file is not among the
  effects; and the machine is not in the state \<open>Config\<close> after any number of directives.
\<close>

theorem no_config_no_override:
  assumes "load_micro w s = Inr lines" and "list_all not_config_line lines"
  shows "parse (w\<lparr>config_exists := b, cfg_load := L\<rparr>) s co = parse w s co \<and>
         LoadOverride \<notin> set (snd (parse w s co)) \<and>
         state (snd (run_events w FSM_init (take k (events_of co lines)))) \<noteq> Config"
proof -
  have "load_micro (w\<lparr>config_exists := b, cfg_load := L\<rparr>) s = load_micro w s"
    by (simp add: load_micro_def override_frame_load)
  with assms(1) parse_loaded_no_config [OF assms(2), where w = w and b = b and L = L and co = co]
  have a: "parse (w\<lparr>config_exists := b, cfg_load := L\<rparr>) s co = parse w s co"
    and c: "LoadOverride \<notin> set (snd (parse w s co))"
    by (simp_all add: parse_def)
  have "list_all (\<lambda>ev. \<not> is_config_event (e_name ev)) (events_of co lines)"
    using dispatched_no_config [OF assms(2), of co]
    by (simp add: events_of_def final_event_def is_config_event_def)
  then have "list_all (\<lambda>ev. \<not> is_config_event (e_name ev)) (take k (events_of co lines))"
    by (auto simp: list_all_iff dest: in_set_takeD)
  from run_stays_out [OF _ this, where m = FSM_init and w = w] have "state (snd (run_events w FSM_init (take k (events_of co lines)))) \<noteq> Config"
    by (simp add: FSM_init_def)
  with a c show ?thesis by blast
qed

theorem no_config_no_override_witness:
  "load_micro ping_world ''micro'' =
     Inr [(''micro'', 1, ''PORT 12345''), (''micro'', 2, ''ROUTE /ping?''),
          (''micro'', 3, ''    GET handle.ping'')] \<and>
   list_all not_config_line
     [(''micro'', 1, ''PORT 12345''), (''micro'', 2, ''ROUTE /ping?''),
      (''micro'', 3, ''    GET handle.ping'')] \<and>
   parse (ping_world\<lparr>config_exists := True, cfg_load := (\<lambda>cfg. Inl ExternalFailure)\<rparr>) ''micro'' False =
     (Inr (Control (PInt 100) (PInt 100) None),
      [AddServer (plain_listener 12345 [(''/ping?'', [(''get'', Function ''handle'' ''ping'')])])]) \<and>
   parse ping_world ''micro'' False =
     (Inr (Control (PInt 100) (PInt 100) None),
      [AddServer (plain_listener 12345 [(''/ping?'', [(''get'', Function ''handle'' ''ping'')])])])"
proof -
  let ?lines = "[(''micro'', 1, ''PORT 12345''), (''micro'', 2, ''ROUTE /ping?''),
          (''micro'', 3, ''    GET handle.ping'')]"
  have ld: "load_micro ping_world ''micro'' = Inr ?lines"
    by code_simp
  have nc: "list_all not_config_line ?lines"
    by code_simp
  have p: "parse ping_world ''micro'' False =
     (Inr (Control (PInt 100) (PInt 100) None),
      [AddServer (plain_listener 12345 [(''/ping?'', [(''get'', Function ''handle'' ''ping'')])])])"
    by code_simp
  from no_config_no_override [OF ld nc, where b = True and L = "\<lambda>cfg. Inl ExternalFailure"
      and co = False and k = 0] ld nc p
  show ?thesis by simp
qed

section \<open>CONFIG directives after other directives\<close>

lemma parse_lines_append:
  "parse_lines w co m (xs @ ys) seen =
     (case parse_lines w co m xs seen of
        (None, m', seen') \<Rightarrow> parse_lines w co m' ys seen'
      | (Some e, m', seen') \<Rightarrow> (Some e, m', seen'))"
proof (induction xs arbitrary: m seen)
  case Nil
  then show ?case by simp
next
  case (Cons x xs)
  obtain fname lnum l where x: "x = (fname, lnum, l)" by (cases x)
  show ?case
  proof (cases "lex_line l")
    case (Inl e)
    with x show ?thesis by simp
  next
    case (Inr t)
    show ?thesis
    proof (cases t)
      case None
      with Inr x Cons.IH show ?thesis by simp
    next
      case (Some nv)
      obtain n v where nv: "nv = (n, v)" by (cases nv)
      show ?thesis
      proof (cases "co \<and> \<not> is_config_event n")
        case True
        with Inr Some nv x Cons.IH show ?thesis by simp
      next
        case False
        let ?ev = "\<lparr>e_name = n, e_data = Some v, e_file = fname, e_line = lnum\<rparr>"
        obtain r1 m1 where h: "handle w m ?ev = (r1, m1)" by (cases "handle w m ?ev")
        show ?thesis
        proof (cases r1)
          case None
          with h Inr Some nv False x Cons.IH [of m1 "Some (fname, lnum)"]
          show ?thesis by (auto simp del: parse_lines.simps(2) simp add: parse_lines.simps(2) [of w co m])
        next
          case (Some e)
          with h Inr \<open>t = Some nv\<close> nv False x show ?thesis by auto
        qed
      qed
    qed
  qed
qed

lemma state_init_leaves:
  assumes "state_init w m ev = (None, m')"
    and "ev \<notin> set [''config'', ''config_server'', ''setup'', ''teardown'']"
  shows "state m' = ServerOpen \<or> state m' = Done"
proof -
  consider "ev = ''server''" | "ev = ''port''" | "ev = ''done''"
    | "ev \<notin> set [''config'', ''config_server'', ''setup'', ''teardown'', ''server'', ''port'', ''done'']"
    using assms(2) by auto
  then show ?thesis
  proof cases
    case 1
    with assms open_server_frame [of w m None m'] show ?thesis
      by (simp add: state_init_def is_config_event_def)
  next
    case 2
    with assms open_port_frame [of w m None m'] show ?thesis
      by (simp add: state_init_def is_config_event_def)
  next
    case 3
    with assms show ?thesis
      by (auto simp: state_init_def is_config_event_def)
  next
    case 4
    with assms show ?thesis
      by (auto simp: state_init_def is_config_event_def)
  qed
qed

lemma handle_leaves_init:
  assumes "handle w m ev = (None, m')"
    and "e_name ev \<notin> set [''config'', ''config_server'', ''setup'', ''teardown'']"
  shows "past_init m'"
proof -
  let ?m = "m\<lparr>data := (case e_data ev of None \<Rightarrow> [] | Some v \<Rightarrow> v)\<rparr>"
  have d: "dispatch w ?m (e_name ev) = (None, m')"
    using assms(1) by (auto simp: handle_def split: prod.splits option.splits)
  from assms(2) have nc: "\<not> is_config_event (e_name ev)"
    by (simp add: is_config_event_def)
  show ?thesis
  proof (cases "state m")
    case Init
    with d have "state_init w ?m (e_name ev) = (None, m')" by (simp add: dispatch_def)
    from state_init_leaves [OF this assms(2)] show ?thesis by (auto simp: past_init_def)
  next
    case Config
    with d nc have s: "state_config w ?m (e_name ev) = (None, m')" by (simp add: dispatch_def)
    show ?thesis
    proof (cases "config_exists w")
      case False
      with s nc have "state_init w (?m\<lparr>state := Init\<rparr>) (e_name ev) = (None, m')"
        by (simp add: state_config_def)
      from state_init_leaves [OF this assms(2)] show ?thesis by (auto simp: past_init_def)
    next
      case True
      show ?thesis
      proof (cases "cfg_load w (config m)")
        case (Inl e)
        with True s nc show ?thesis by (simp add: state_config_def)
      next
        case (Inr cfg)
        with True s nc
        have "state_init w (?m\<lparr>config := cfg, effects := effects m @ [LoadOverride], state := Init\<rparr>)
                (e_name ev) = (None, m')"
          by (simp add: state_config_def)
        from state_init_leaves [OF this assms(2)] show ?thesis by (auto simp: past_init_def)
      qed
    qed
  next
    case ServerOpen
    then have "past_init m" by (simp add: past_init_def)
    with handle_state(2) [OF assms(1)] show ?thesis by simp
  next
    case RouteOpen
    then have "past_init m" by (simp add: past_init_def)
    with handle_state(2) [OF assms(1)] show ?thesis by simp
  next
    case Done
    then have "past_init m" by (simp add: past_init_def)
    with handle_state(2) [OF assms(1)] show ?thesis by simp
  qed
qed

lemma parse_lines_leaves_init:
  "parse_lines w False m pre seen = (None, m1, seen1) \<Longrightarrow>
   past_init m \<or> list_ex leaves_init pre \<Longrightarrow> past_init m1"
proof (induction pre arbitrary: m seen)
  case Nil
  then show ?case by simp
next
  case (Cons x rest)
  obtain fname lnum l where x: "x = (fname, lnum, l)" by (cases x)
  show ?case
  proof (cases "lex_line l")
    case (Inl e)
    with Cons.prems x show ?thesis by simp
  next
    case (Inr t)
    show ?thesis
    proof (cases t)
      case None
      with Inr have "\<not> leaves_init (fname, lnum, l)"
        by (simp add: leaves_init_def)
      with None Inr Cons.prems x
      have "parse_lines w False m rest (Some (fname, lnum)) = (None, m1, seen1)"
        and "past_init m \<or> list_ex leaves_init rest"
        by simp_all
      then show ?thesis by (rule Cons.IH)
    next
      case (Some nv)
      obtain n v where nv: "nv = (n, v)" by (cases nv)
      let ?ev = "\<lparr>e_name = n, e_data = Some v, e_file = fname, e_line = lnum\<rparr>"
      obtain r2 m2 where h: "handle w m ?ev = (r2, m2)" by (cases "handle w m ?ev")
      with Inr Some nv Cons.prems(1) x have r2: "r2 = None"
        by (cases r2) auto
      with h Inr Some nv Cons.prems(1) x
      have run: "parse_lines w False m2 rest (Some (fname, lnum)) = (None, m1, seen1)"
        by auto
      from h r2 have h': "handle w m ?ev = (None, m2)" by simp
      have "past_init m2 \<or> list_ex leaves_init rest"
      proof (cases "past_init m")
        case True
        with handle_state(2) [OF h'] show ?thesis by simp
      next
        case False
        with Cons.prems(2) x have "leaves_init (fname, lnum, l) \<or> list_ex leaves_init rest"
          by simp
        then show ?thesis
        proof
          assume "leaves_init (fname, lnum, l)"
          with Inr Some nv
          have "e_name ?ev \<notin> set [''config'', ''config_server'', ''setup'', ''teardown'']"
            by (simp add: leaves_init_def)
          from handle_leaves_init [OF h' this] show ?thesis by simp
        qed simp
      qed
      with run show ?thesis by (rule Cons.IH)
    qed
  qed
qed

lemma config_rejected:
  assumes "past_init m" and "is_config_event n"
  shows "handle w m \<lparr>e_name = n, e_data = Some v, e_file = fname, e_line = lnum\<rparr> =
         (Some (AtLine (if state m = Done then UnexpectedEvent n else InvalidRecord n) lnum fname),
          m\<lparr>data := v\<rparr>)"
  using assms
  by (auto simp: past_init_def is_config_event_def handle_def dispatch_def state_server_def
        state_route_def state_done_def)

text \<open>
  C1. A CONFIG or CONFIG\_SERVER directive that comes after lines which \<^verbatim>\<open>parse\<close> (not
  \<^verbatim>\<open>config_only\<close>) has processed without an error, and of which at least one is a directive
  other than CONFIG, CONFIG\_SERVER, SETUP and TEARDOWN (a PORT or SERVER directive, or
  what can follow one): the loop of \<^verbatim>\<open>parse\<close> stops at this line with the error of an
  invalid record (of an unexpected event, if a directive named \<open>done\<close> was among the
  lines), which carries the line number and the file; the machine is left as it was
  but for the data of the directive, so the directive is not processed, and \<^verbatim>\<open>parse\<close>
  fails with that error.
\<close>

theorem late_config_rejected:
  assumes pre: "parse_lines w False FSM_init pre None = (None, m1, seen1)"
    and left: "list_ex leaves_init pre"
    and lex: "lex_line l = Inr (Some (n, v))"
    and cfg: "is_config_event n"
  shows "parse_lines w False FSM_init (pre @ (fname, lnum, l) # post) None =
           (Some (AtLine (if state m1 = Done then UnexpectedEvent n else InvalidRecord n) lnum fname),
            m1\<lparr>data := v\<rparr>, Some (fname, lnum)) \<and>
         parse_loaded w False (pre @ (fname, lnum, l) # post) =
           (Inl (AtLine (if state m1 = Done then UnexpectedEvent n else InvalidRecord n) lnum fname),
            effects m1)"
proof -
  from parse_lines_leaves_init [OF pre] left have "past_init m1" by simp
  from config_rejected [OF this cfg, of w v fname lnum] lex pre
  have "parse_lines w False FSM_init (pre @ (fname, lnum, l) # post) None =
           (Some (AtLine (if state m1 = Done then UnexpectedEvent n else InvalidRecord n) lnum fname),
            m1\<lparr>data := v\<rparr>, Some (fname, lnum))"
    by (simp add: parse_lines_append)
  then show ?thesis by (simp add: parse_loaded_def)
qed

theorem late_config_rejected_witness:
  "parse_lines (world_of []) False FSM_init [(''micro'', 1, ''PORT 12345'')] None =
     (None,
      FSM_init\<lparr>state := ServerOpen, server := Some (port_server 12345), data := ''12345''\<rparr>,
      Some (''micro'', 1)) \<and>
   list_ex leaves_init [(''micro'', 1, ''PORT 12345'')] \<and>
   lex_line ''CONFIG name default=x'' = Inr (Some (''config'', ''name default=x'')) \<and>
   is_config_event ''config'' \<and>
   parse_lines (world_of []) False FSM_init
     ([(''micro'', 1, ''PORT 12345'')] @ [(''micro'', 2, ''CONFIG name default=x'')]) None =
     (Some (AtLine (InvalidRecord ''config'') 2 ''micro''),
      FSM_init\<lparr>state := ServerOpen, server := Some (port_server 12345),
               data := ''name default=x''\<rparr>,
      Some (''micro'', 2)) \<and>
   parse_loaded (world_of []) False
     ([(''micro'', 1, ''PORT 12345'')] @ [(''micro'', 2, ''CONFIG name default=x'')]) =
     (Inl (AtLine (InvalidRecord ''config'') 2 ''micro''), [])"
proof -
  have pre: "parse_lines (world_of []) False FSM_init [(''micro'', 1, ''PORT 12345'')] None =
     (None,
      FSM_init\<lparr>state := ServerOpen, server := Some (port_server 12345), data := ''12345''\<rparr>,
      Some (''micro'', 1))"
    by code_simp
  have left: "list_ex leaves_init [(''micro'', 1, ''PORT 12345'')]"
    by code_simp
  have lex: "lex_line ''CONFIG name default=x'' = Inr (Some (''config'', ''name default=x''))"
    by code_simp
  have cfg: "is_config_event ''config''"
    by (simp add: is_config_event_def)
  from late_config_rejected [OF pre left lex cfg, of "''micro''" 2 "[]"] pre left lex cfg
  show ?thesis by (simp add: FSM_init_def)
qed

text \<open>
  C1 as it is stated fails on the code. In the first run a CONFIG directive follows a
  TEARDOWN directive and is processed: \<^verbatim>\<open>parse\<close> succeeds. In the second run, with
  \<^verbatim>\<open>config_only\<close>, a CONFIG directive follows a PORT directive, which is skipped: the CONFIG
  directive is processed and its key is returned.
\<close>

theorem late_config_accepted_counterexample:
  "parse_loaded (world_of []) False
     [(''micro'', 1, ''TEARDOWN handle.teardown''), (''micro'', 2, ''CONFIG name default=x''),
      (''micro'', 3, ''PORT 12345'')] =
     (Inr (Control (PInt 100) (PInt 100) (Some (Function ''handle'' ''teardown''))),
      [AddServer (plain_listener 12345 [])]) \<and>
   parse_loaded (world_of []) True
     [(''micro'', 1, ''PORT 12345''), (''micro'', 2, ''CONFIG name default=x'')] =
     (Inr (ConfigOnly
             [\<lparr>ck_name = ''name'', ck_value = PStr ''x'', ck_validator = None, ck_env = None\<rparr>]
             [''name'']), [])"
  by code_simp

section \<open>Two servers on one port\<close>

text \<open>The table \<^verbatim>\<open>self.ports\<close> only grows: a port that a SERVER directive has taken keeps
  the name of that server, whatever the machine handles afterwards.\<close>

lemma open_server_keeps:
  assumes "open_server w m = (r, m')" and "map_of (ports m) p = Some a"
  shows "map_of (ports m') p = Some a"
  using assms
  by (auto simp: open_server_def update_conv' split: option.splits sum.splits)

lemma open_server_records:
  assumes "open_server w m = (None, m')"
  shows "\<exists>srv. server m' = Some srv \<and> map_of (ports m') (s_port srv) = Some (data m)"
  using assms
  by (auto simp: open_server_def Server_init_def Let_def update_conv'
           split: option.splits sum.splits)

lemma state_init_keeps:
  assumes "state_init w m ev = (r, m')" and "map_of (ports m) p = Some a"
  shows "map_of (ports m') p = Some a"
proof -
  consider "is_config_event ev" | "ev = ''setup''" | "ev = ''teardown''" | "ev = ''server''"
    | "ev = ''port''" | "ev = ''done''"
    | "\<not> is_config_event ev \<and>
       ev \<notin> set [''setup'', ''teardown'', ''server'', ''port'', ''done'']"
    by auto
  then show ?thesis
  proof cases
    case 1
    with assms config_branches_frame [of w "m\<lparr>state := Config\<rparr>" ev r m'] show ?thesis
      by (simp add: state_init_def)
  next
    case 2
    with assms show ?thesis
      by (auto simp: state_init_def is_config_event_def Let_def split: sum.splits)
  next
    case 3
    with assms show ?thesis
      by (auto simp: state_init_def is_config_event_def split: sum.splits)
  next
    case 4
    with assms open_server_keeps [of w m r m' p a] show ?thesis
      by (simp add: state_init_def is_config_event_def)
  next
    case 5
    with assms open_port_frame [of w m r m'] show ?thesis
      by (simp add: state_init_def is_config_event_def)
  next
    case 6
    with assms show ?thesis
      by (auto simp: state_init_def is_config_event_def)
  next
    case 7
    with assms show ?thesis
      by (auto simp: state_init_def)
  qed
qed

lemma state_config_keeps:
  assumes "state_config w m ev = (r, m')" and "map_of (ports m) p = Some a"
  shows "map_of (ports m') p = Some a"
proof (cases "is_config_event ev")
  case True
  with assms config_branches_frame [of w m ev r m'] show ?thesis
    by (simp add: state_config_def)
next
  case nc: False
  show ?thesis
  proof (cases "config_exists w")
    case False
    with nc assms have "state_init w (m\<lparr>state := Init\<rparr>) ev = (r, m')"
      by (simp add: state_config_def)
    from state_init_keeps [OF this] assms(2) show ?thesis by simp
  next
    case True
    show ?thesis
    proof (cases "cfg_load w (config m)")
      case (Inl e)
      with True nc assms show ?thesis by (auto simp: state_config_def)
    next
      case (Inr cfg)
      with True nc assms
      have "state_init w (m\<lparr>config := cfg, effects := effects m @ [LoadOverride], state := Init\<rparr>) ev
              = (r, m')"
        by (simp add: state_config_def)
      from state_init_keeps [OF this] assms(2) show ?thesis by simp
    qed
  qed
qed

lemma state_server_keeps:
  assumes "state_server w m ev = (r, m')" and "map_of (ports m) p = Some a"
  shows "map_of (ports m') p = Some a"
proof -
  consider "ev = ''route''" | "ev = ''done''" | "ev \<noteq> ''route'' \<and> ev \<noteq> ''done''"
    by auto
  then show ?thesis
  proof cases
    case 1
    with assms show ?thesis
      by (auto simp: state_server_def split: option.splits)
  next
    case 2
    obtain r1 m1 where f: "finish_server w m = (r1, m1)" by (cases "finish_server w m")
    from 2 assms f finish_server_frame [OF f] show ?thesis
      by (cases r1) (auto simp: state_server_def)
  next
    case 3
    with assms show ?thesis
      by (auto simp: state_server_def)
  qed
qed

lemma state_route_keeps:
  assumes "state_route w m ev = (r, m')" and "map_of (ports m) p = Some a"
  shows "map_of (ports m') p = Some a"
proof -
  obtain r1 m1 where f: "finish_server w m = (r1, m1)" by (cases "finish_server w m")
  note ff = finish_server_frame [OF f]
  consider "ev \<in> set [''get'', ''post'', ''put'', ''delete'']" | "ev = ''route''"
    | "ev = ''server''" | "ev = ''port''" | "ev = ''done''"
    | "ev \<notin> set [''get'', ''post'', ''put'', ''delete'', ''route'', ''server'', ''port'', ''done'']"
    by auto
  then show ?thesis
  proof cases
    case 1
    with assms show ?thesis
      by (auto simp: state_route_def split: option.splits sum.splits)
  next
    case 2
    with assms show ?thesis
      by (auto simp: state_route_def split: option.splits)
  next
    case 3
    show ?thesis
    proof (cases r1)
      case None
      with 3 assms f have "open_server w m1 = (r, m')"
        by (simp add: state_route_def)
      from open_server_keeps [OF this] ff assms(2) show ?thesis by simp
    next
      case (Some e)
      with 3 assms f ff show ?thesis
        by (auto simp: state_route_def)
    qed
  next
    case 4
    show ?thesis
    proof (cases r1)
      case None
      with 4 assms f have "open_port w m1 = (r, m')"
        by (simp add: state_route_def)
      from open_port_frame [OF this] ff assms(2) show ?thesis by simp
    next
      case (Some e)
      with 4 assms f ff show ?thesis
        by (auto simp: state_route_def)
    qed
  next
    case 5
    with assms f ff show ?thesis
      by (cases r1) (auto simp: state_route_def)
  next
    case 6
    with assms show ?thesis
      by (auto simp: state_route_def)
  qed
qed

lemma handle_keeps:
  assumes "handle w m ev = (r, m')" and "map_of (ports m) p = Some a"
  shows "map_of (ports m') p = Some a"
proof -
  let ?m = "m\<lparr>data := (case e_data ev of None \<Rightarrow> [] | Some v \<Rightarrow> v)\<rparr>"
  obtain r0 where d: "dispatch w ?m (e_name ev) = (r0, m')"
    using assms(1) by (auto simp: handle_def split: prod.splits option.splits)
  have p: "map_of (ports ?m) p = Some a" using assms(2) by simp
  show ?thesis
  proof (cases "state m")
    case Init
    with d have "state_init w ?m (e_name ev) = (r0, m')" by (simp add: dispatch_def)
    from state_init_keeps [OF this p] show ?thesis .
  next
    case Config
    with d have "state_config w ?m (e_name ev) = (r0, m')" by (simp add: dispatch_def)
    from state_config_keeps [OF this p] show ?thesis .
  next
    case ServerOpen
    with d have "state_server w ?m (e_name ev) = (r0, m')" by (simp add: dispatch_def)
    from state_server_keeps [OF this p] show ?thesis .
  next
    case RouteOpen
    with d have "state_route w ?m (e_name ev) = (r0, m')" by (simp add: dispatch_def)
    from state_route_keeps [OF this p] show ?thesis .
  next
    case Done
    with d p show ?thesis by (auto simp: dispatch_def state_done_def)
  qed
qed

lemma parse_lines_keeps:
  "parse_lines w co m lines seen = (r, m', seen') \<Longrightarrow> map_of (ports m) p = Some a \<Longrightarrow>
   map_of (ports m') p = Some a"
proof (induction lines arbitrary: m seen)
  case Nil
  then show ?case by simp
next
  case (Cons x rest)
  obtain fname lnum l where x: "x = (fname, lnum, l)" by (cases x)
  show ?case
  proof (cases "lex_line l")
    case (Inl e)
    with Cons.prems x show ?thesis by simp
  next
    case (Inr t)
    show ?thesis
    proof (cases t)
      case None
      with Inr Cons.prems x
      have "parse_lines w co m rest (Some (fname, lnum)) = (r, m', seen')" by simp
      from Cons.IH [OF this Cons.prems(2)] show ?thesis .
    next
      case (Some nv)
      obtain n v where nv: "nv = (n, v)" by (cases nv)
      show ?thesis
      proof (cases "co \<and> \<not> is_config_event n")
        case True
        with Inr Some nv Cons.prems x
        have "parse_lines w co m rest (Some (fname, lnum)) = (r, m', seen')" by simp
        from Cons.IH [OF this Cons.prems(2)] show ?thesis .
      next
        case False
        let ?ev = "\<lparr>e_name = n, e_data = Some v, e_file = fname, e_line = lnum\<rparr>"
        obtain r1 m1 where h: "handle w m ?ev = (r1, m1)" by (cases "handle w m ?ev")
        note k = handle_keeps [OF h Cons.prems(2)]
        show ?thesis
        proof (cases r1)
          case None
          with h Inr Some nv False Cons.prems(1) x
          have "parse_lines w co m1 rest (Some (fname, lnum)) = (r, m', seen')" by auto
          from Cons.IH [OF this k] show ?thesis .
        next
          case (Some e)
          with h Inr \<open>t = Some nv\<close> nv False Cons.prems(1) x k show ?thesis by auto
        qed
      qed
    qed
  qed
qed

lemma server_accepted:
  assumes "handle w m \<lparr>e_name = ''server'', e_data = Some a, e_file = fname, e_line = lnum\<rparr> = (None, m')"
  shows "\<exists>srv. server m' = Some srv \<and> map_of (ports m') (s_port srv) = Some a"
proof -
  let ?m = "m\<lparr>data := a\<rparr>"
  have d: "dispatch w ?m ''server'' = (None, m')"
    using assms by (auto simp: handle_def split: prod.splits option.splits)
  have init: "?thesis" if "state_init w m0 ''server'' = (None, m')" and "data m0 = a" for m0
  proof -
    from that(1) have "open_server w m0 = (None, m')"
      by (simp add: state_init_def is_config_event_def)
    from open_server_records [OF this] that(2) show ?thesis by simp
  qed
  show ?thesis
  proof (cases "state m")
    case Init
    with d have "state_init w ?m ''server'' = (None, m')" by (simp add: dispatch_def)
    then show ?thesis by (rule init) simp
  next
    case Config
    with d have s: "state_config w ?m ''server'' = (None, m')" by (simp add: dispatch_def)
    show ?thesis
    proof (cases "config_exists w")
      case False
      with s have "state_init w (?m\<lparr>state := Init\<rparr>) ''server'' = (None, m')"
        by (simp add: state_config_def is_config_event_def)
      then show ?thesis by (rule init) simp
    next
      case True
      show ?thesis
      proof (cases "cfg_load w (config m)")
        case (Inl e)
        with True s show ?thesis by (simp add: state_config_def is_config_event_def)
      next
        case (Inr cfg)
        with True s
        have "state_init w (?m\<lparr>config := cfg, effects := effects m @ [LoadOverride], state := Init\<rparr>)
                ''server'' = (None, m')"
          by (simp add: state_config_def is_config_event_def)
        then show ?thesis by (rule init) simp
      qed
    qed
  next
    case ServerOpen
    with d show ?thesis by (simp add: dispatch_def state_server_def)
  next
    case RouteOpen
    with d have s: "state_route w ?m ''server'' = (None, m')" by (simp add: dispatch_def)
    obtain r1 m1 where f: "finish_server w ?m = (r1, m1)" by (cases "finish_server w ?m")
    from f have dm: "data m1 = a"
      by (auto simp: finish_server_def split: option.splits prod.splits)
    from s f have "open_server w m1 = (None, m')"
      by (cases r1) (simp_all add: state_route_def)
    from open_server_records [OF this] dm show ?thesis by simp
  next
    case Done
    with d show ?thesis by (simp add: dispatch_def state_done_def)
  qed
qed

text \<open>
  C3. Two SERVER directives whose sections of the namespace give the same port. The first
  one, for \<open>a\<close>, was accepted; the lines between the two were processed without an error
  and left a route open; the server that is open when the second directive, for \<open>b\<close>,
  arrives is registered without an error. Then the loop of \<^verbatim>\<open>parse\<close> stops at the line of
  the second SERVER directive, with the error that the port is already defined for the
  server \<open>a\<close>; the lines after it are not read, the server \<open>b\<close> is not registered, and
  \<^verbatim>\<open>parse\<close> fails with that error.
\<close>

theorem duplicate_server_port:
  assumes first: "parse_lines w False FSM_init (pre @ [(f1, n1, l1)]) None = (None, m1, s1)"
    and lex1: "lex_line l1 = Inr (Some (''server'', a))"
    and srv1: "server m1 = Some srv1"
    and mid: "parse_lines w False m1 mid s1 = (None, m2, s2)"
    and route: "state m2 = RouteOpen"
    and fin: "finish_server w (m2\<lparr>data := b\<rparr>) = (None, m3)"
    and lex2: "lex_line l2 = Inr (Some (''server'', b))"
    and sec: "cfg_getattr w (config m2) b = Some obj" "Server_init w (config m2) b obj = Inr srv2"
    and same: "s_port srv2 = s_port srv1"
  shows "parse_lines w False FSM_init (pre @ (f1, n1, l1) # mid @ (f2, n2, l2) # post) None =
           (Some (AtLine (PortAlreadyDefined (s_port srv1) a) n2 f2),
            m3\<lparr>server := Some srv2\<rparr>, Some (f2, n2)) \<and>
         parse_loaded w False (pre @ (f1, n1, l1) # mid @ (f2, n2, l2) # post) =
           (Inl (AtLine (PortAlreadyDefined (s_port srv1) a) n2 f2), effects m3)"
proof -
  obtain r0 m0 s0 where p0: "parse_lines w False FSM_init pre None = (r0, m0, s0)"
    by (cases "parse_lines w False FSM_init pre None")
  with first have r0: "r0 = None"
    by (cases r0) (simp_all add: parse_lines_append)
  let ?ev1 = "\<lparr>e_name = ''server'', e_data = Some a, e_file = f1, e_line = n1\<rparr>"
  obtain r1 m1' where h1: "handle w m0 ?ev1 = (r1, m1')" by (cases "handle w m0 ?ev1")
  from first p0 r0 lex1 h1 have "r1 = None \<and> m1' = m1"
    by (cases r1) (simp_all add: parse_lines_append is_config_event_def)
  with h1 have "handle w m0 ?ev1 = (None, m1)" by simp
  from server_accepted [OF this] srv1 have port1: "map_of (ports m1) (s_port srv1) = Some a"
    by simp
  from parse_lines_keeps [OF mid port1] have port2: "map_of (ports m2) (s_port srv1) = Some a" .
  from fin have m3: "config m3 = config m2" "ports m3 = ports m2" "data m3 = b"
    using finish_server_frame [OF fin]
    by (auto simp: finish_server_def split: option.splits prod.splits)
  from sec same port2 m3 have "open_server w m3 =
      (Some (PortAlreadyDefined (s_port srv1) a), m3\<lparr>server := Some srv2\<rparr>)"
    by (simp add: open_server_def)
  with fin route have "handle w m2 \<lparr>e_name = ''server'', e_data = Some b, e_file = f2, e_line = n2\<rparr> =
      (Some (AtLine (PortAlreadyDefined (s_port srv1) a) n2 f2), m3\<lparr>server := Some srv2\<rparr>)"
    by (simp add: handle_def dispatch_def state_route_def)
  with lex2 have "parse_lines w False m2 ((f2, n2, l2) # post) s2 =
      (Some (AtLine (PortAlreadyDefined (s_port srv1) a) n2 f2), m3\<lparr>server := Some srv2\<rparr>,
       Some (f2, n2))"
    by (simp add: is_config_event_def)
  with mid have "parse_lines w False m1 (mid @ (f2, n2, l2) # post) s1 =
      (Some (AtLine (PortAlreadyDefined (s_port srv1) a) n2 f2), m3\<lparr>server := Some srv2\<rparr>,
       Some (f2, n2))"
    by (simp add: parse_lines_append)
  with first have "parse_lines w False FSM_init ((pre @ [(f1, n1, l1)]) @ mid @ (f2, n2, l2) # post) None =
      (Some (AtLine (PortAlreadyDefined (s_port srv1) a) n2 f2), m3\<lparr>server := Some srv2\<rparr>,
       Some (f2, n2))"
    by (simp only: parse_lines_append [of w False FSM_init "pre @ [(f1, n1, l1)]"] prod.case option.case)
  then have "parse_lines w False FSM_init (pre @ (f1, n1, l1) # mid @ (f2, n2, l2) # post) None =
      (Some (AtLine (PortAlreadyDefined (s_port srv1) a) n2 f2), m3\<lparr>server := Some srv2\<rparr>,
       Some (f2, n2))"
    by simp
  then show ?thesis by (simp add: parse_loaded_def)
qed

theorem duplicate_server_port_witness:
  "parse_lines (world_of []) False FSM_init (same_port_lines @ [(''micro'', 3, ''SERVER a'')]) None =
     (None, after_server_a, Some (''micro'', 3)) \<and>
   lex_line ''SERVER a'' = Inr (Some (''server'', ''a'')) \<and>
   server after_server_a = Some (named_server ''a'' 8000) \<and>
   parse_lines (world_of []) False after_server_a
     [(''micro'', 4, ''ROUTE /a''), (''micro'', 5, ''GET handle.ping'')] (Some (''micro'', 3)) =
     (None, after_get_a, Some (''micro'', 5)) \<and>
   state after_get_a = RouteOpen \<and>
   finish_server (world_of []) (after_get_a\<lparr>data := ''b''\<rparr>) = (None, after_finish_a) \<and>
   lex_line ''SERVER b'' = Inr (Some (''server'', ''b'')) \<and>
   cfg_getattr (world_of []) (config after_get_a) ''b'' = Some (PSection ''b'') \<and>
   Server_init (world_of []) (config after_get_a) ''b'' (PSection ''b'') =
     Inr (named_server ''b'' 8000) \<and>
   s_port (named_server ''b'' 8000) = s_port (named_server ''a'' 8000) \<and>
   parse_loaded (world_of []) False
     (same_port_lines @ (''micro'', 3, ''SERVER a'') #
      [(''micro'', 4, ''ROUTE /a''), (''micro'', 5, ''GET handle.ping'')] @
      (''micro'', 6, ''SERVER b'') #
      [(''micro'', 7, ''ROUTE /b''), (''micro'', 8, ''GET handle.pong'')]) =
     (Inl (AtLine (PortAlreadyDefined 8000 ''a'') 6 ''micro''),
      [AddServer (plain_listener 8000 [(''/a'', [(''get'', Function ''handle'' ''ping'')])])])"
proof -
  have first: "parse_lines (world_of []) False FSM_init
      (same_port_lines @ [(''micro'', 3, ''SERVER a'')]) None =
      (None, after_server_a, Some (''micro'', 3))"
    by code_simp
  have lex1: "lex_line ''SERVER a'' = Inr (Some (''server'', ''a''))"
    by code_simp
  have srv1: "server after_server_a = Some (named_server ''a'' 8000)"
    by code_simp
  have mid: "parse_lines (world_of []) False after_server_a
      [(''micro'', 4, ''ROUTE /a''), (''micro'', 5, ''GET handle.ping'')] (Some (''micro'', 3)) =
      (None, after_get_a, Some (''micro'', 5))"
    by code_simp
  have route: "state after_get_a = RouteOpen"
    by code_simp
  have fin: "finish_server (world_of []) (after_get_a\<lparr>data := ''b''\<rparr>) = (None, after_finish_a)"
    by code_simp
  have lex2: "lex_line ''SERVER b'' = Inr (Some (''server'', ''b''))"
    by code_simp
  have sec1: "cfg_getattr (world_of []) (config after_get_a) ''b'' = Some (PSection ''b'')"
    by code_simp
  have sec2: "Server_init (world_of []) (config after_get_a) ''b'' (PSection ''b'') =
      Inr (named_server ''b'' 8000)"
    by code_simp
  have same: "s_port (named_server ''b'' 8000) = s_port (named_server ''a'' 8000)"
    by code_simp
  have eff: "effects after_finish_a =
      [AddServer (plain_listener 8000 [(''/a'', [(''get'', Function ''handle'' ''ping'')])])]"
    by code_simp
  have port: "s_port (named_server ''a'' 8000) = 8000"
    by code_simp
  from duplicate_server_port [OF first lex1 srv1 mid route fin lex2 sec1 sec2 same,
      of "''micro''" 6 "[(''micro'', 7, ''ROUTE /b''), (''micro'', 8, ''GET handle.pong'')]"]
    eff port
  have "parse_loaded (world_of []) False
     (same_port_lines @ (''micro'', 3, ''SERVER a'') #
      [(''micro'', 4, ''ROUTE /a''), (''micro'', 5, ''GET handle.ping'')] @
      (''micro'', 6, ''SERVER b'') #
      [(''micro'', 7, ''ROUTE /b''), (''micro'', 8, ''GET handle.pong'')]) =
     (Inl (AtLine (PortAlreadyDefined 8000 ''a'') 6 ''micro''),
      [AddServer (plain_listener 8000 [(''/a'', [(''get'', Function ''handle'' ''ping'')])])])"
    by simp
  with first lex1 srv1 mid route fin lex2 sec1 sec2 same show ?thesis by blast
qed

text \<open>
  C3 as it is stated fails on the code. In the first run two PORT directives give the
  same port: \<^verbatim>\<open>parse\<close> succeeds and both listeners are registered. In the second run two
  SERVER directives give the same port, and a line that is no directive follows the
  routes of the second: the error is that of the port, at the line of the second SERVER
  directive, and not, where the second server would be registered, that of the line
  that is no directive.
\<close>

theorem duplicate_port_counterexample:
  "parse_loaded (world_of []) False
     [(''micro'', 1, ''PORT 12345''), (''micro'', 2, ''ROUTE /a''),
      (''micro'', 3, ''GET handle.ping''), (''micro'', 4, ''PORT 12345''),
      (''micro'', 5, ''ROUTE /b''), (''micro'', 6, ''GET handle.pong'')] =
     (Inr (Control (PInt 100) (PInt 100) None),
      [AddServer (plain_listener 12345 [(''/a'', [(''get'', Function ''handle'' ''ping'')])]),
       AddServer (plain_listener 12345 [(''/b'', [(''get'', Function ''handle'' ''pong'')])])]) \<and>
   parse_loaded (world_of []) False
     [(''micro'', 1, ''CONFIG a.port default=8000''), (''micro'', 2, ''CONFIG b.port default=8000''),
      (''micro'', 3, ''SERVER a''), (''micro'', 4, ''ROUTE /a''),
      (''micro'', 5, ''GET handle.ping''), (''micro'', 6, ''SERVER b''),
      (''micro'', 7, ''ROUTE /b''), (''micro'', 8, ''BOGUS x'')] =
     (Inl (AtLine (PortAlreadyDefined 8000 ''a'') 6 ''micro''),
      [AddServer (plain_listener 8000 [(''/a'', [(''get'', Function ''handle'' ''ping'')])])])"
  by code_simp

section \<open>The routes of a server\<close>





end
